theory Spec2Isabelle
  imports Main "HOL-Library.Char_ord" "HOL-Library.List_Lexorder"
begin

section \<open>Values of the language\<close>

text \<open>
  The backend is one JavaScript file, \<^verbatim>\<open>src/index.js\<close>: an Express application with
  a JWT middleware and seven routes. Strings are modelled as \<^typ>\<open>string\<close>, one
  \<^typ>\<open>char\<close> for one code unit; the order on strings is the lexicographic order on
  code units, which is what the operator \<^verbatim>\<open>>\<close> of the language computes on two strings.
\<close>

text \<open>
  An awaited call of a library (the store client, the text-generation client, the hashing
  library) either throws or returns. Every route wraps its calls in \<^verbatim>\<open>try/catch\<close> and
  answers 500 when one throws.
\<close>

datatype 'a call = Throws | Returns 'a

text \<open>
  The fixed messages of the error bodies \<^verbatim>\<open>{ error: ... }\<close>, one constructor for each
  literal of the source; \<open>Upstream\<close> carries a message taken from the store or from the
  identity provider.
\<close>

datatype message =
    Token_nao_fornecido
  | Token_invalido
  | Email_e_senha_sao_obrigatorios
  | Usuario_nao_encontrado
  | Usuario_Auth_nao_encontrado
  | Senha_invalida
  | Erro_interno_do_servidor
  | Preencha_todos_os_campos_obrigatorios
  | Dados_de_anamnese_incompletos
  | Erro_ao_interpretar_resposta_da_IA
  | A_IA_nao_retornou_um_JSON_valido
  | Erro_ao_gerar_plano_com_IA
  | Erro_ao_buscar_metricas
  | Erro_ao_buscar_planos_recentes
  | Upstream string

section \<open>The authentication middleware\<close>

text \<open>The payload signed into a token at login and read back by the middleware.\<close>

record claims =
  jwt_id :: string
  jwt_email :: string
  jwt_name :: string

text \<open>
  \<^verbatim>\<open>JWT_SECRET = process.env.JWT_SECRET || 'genutra-secret'\<close>: an unset or empty
  environment variable gives the default.
\<close>

definition JWT_SECRET :: "string option \<Rightarrow> string" where
  "JWT_SECRET env = (case env of None \<Rightarrow> ''genutra-secret''
     | Some s \<Rightarrow> if s = [] then ''genutra-secret'' else s)"

text \<open>
  \<^verbatim>\<open>s.split(c)\<close> for a one-character separator: the pieces between the occurrences of
  the separator, empty pieces included; the empty string gives one empty piece.
\<close>

fun split :: "char \<Rightarrow> string \<Rightarrow> string list" where
  "split c [] = [[]]"
| "split c (x # xs) =
     (if x = c then [] # split c xs
      else (case split c xs of [] \<Rightarrow> [[x]] | w # ws \<Rightarrow> (x # w) # ws))"

text \<open>\<^verbatim>\<open>xs[i]\<close>: the element, or \<^verbatim>\<open>undefined\<close> out of range.\<close>

definition at :: "'a list \<Rightarrow> nat \<Rightarrow> 'a option" where
  "at xs i = (if i < length xs then Some (xs ! i) else None)"

text \<open>
  What the middleware does with a request: it answers 401 itself, or it calls
  \<^verbatim>\<open>next()\<close> with the decoded payload stored in \<^verbatim>\<open>req.user\<close>.
\<close>

datatype auth_result = Reject nat message | Next claims

text \<open>
  \<^verbatim>\<open>authenticateJWT\<close>. The token library is a parameter: \<open>verify token secret\<close> is
  the decoded payload, or \<open>None\<close> when \<^verbatim>\<open>jwt.verify\<close> throws. The header is
  \<open>None\<close> when the request has no \<^verbatim>\<open>Authorization\<close> header.
\<close>

definition authenticateJWT ::
  "(string \<Rightarrow> string \<Rightarrow> claims option) \<Rightarrow> string \<Rightarrow> string option \<Rightarrow> auth_result" where
  "authenticateJWT verify secret authHeader =
     (case authHeader of
        None \<Rightarrow> Reject 401 Token_nao_fornecido
      | Some h \<Rightarrow>
          if h = [] then Reject 401 Token_nao_fornecido
          else (case at (split CHR '' '' h) 1 of
                  None \<Rightarrow> Reject 401 Token_invalido
                | Some token \<Rightarrow>
                    if token = [] then Reject 401 Token_invalido
                    else (case verify token secret of
                            Some decoded \<Rightarrow> Next decoded
                          | None \<Rightarrow> Reject 401 Token_invalido)))"

section \<open>The dashboard\<close>

text \<open>
  A row of the table \<^verbatim>\<open>planos\<close> as the dashboard reads it: the creation date
  (a calendar date, written \<^verbatim>\<open>YYYY-MM-DD\<close> by the route that creates plans), the
  subject's name and the goal, all three text. The other columns are the extension of
  the record. A row is taken with its date present: the \<^verbatim>\<open>?.\<close> of
  \<^verbatim>\<open>p.data?.slice(0, 7)\<close> guards a row without a date, which the route that creates
  plans never writes.
\<close>

record plano =
  data :: string
  paciente :: string
  objetivo :: string

subsection \<open>Object literals used as counters\<close>

text \<open>
  Both \<^verbatim>\<open>reduce\<close> calls count into an object literal \<^verbatim>\<open>{}\<close> with
  \<^verbatim>\<open>acc[k] = (acc[k] || 0) + 1\<close>. Three facts about objects of the language decide
  what that computes:
  \<^item> an object lists its own keys with the array indices first, in ascending numeric
    order, and then the other keys in the order they were created;
  \<^item> \<^verbatim>\<open>{}\<close> inherits the properties of \<^verbatim>\<open>Object.prototype\<close>, so that
    \<^verbatim>\<open>acc[k]\<close> is not \<^verbatim>\<open>undefined\<close> for a key such as \<^verbatim>\<open>constructor\<close>;
    the inherited value is truthy, and adding 1 to it concatenates: the result is a
    string;
  \<^item> assigning a string to \<^verbatim>\<open>acc.__proto__\<close> goes to the inherited setter, which
    ignores it.
\<close>

text \<open>
  The value of a counter: a number, or (for a key inherited from
  \<^verbatim>\<open>Object.prototype\<close>) the text of the inherited property followed by so many
  characters \<^verbatim>\<open>1\<close>.
\<close>

datatype jsval = Num nat | Inh string nat

type_synonym jsobj = "(string \<times> jsval) list"

definition Object_prototype_names :: "string list" where
  "Object_prototype_names =
     [''constructor'', ''__defineGetter__'', ''__defineSetter__'', ''hasOwnProperty'',
      ''__lookupGetter__'', ''__lookupSetter__'', ''isPrototypeOf'',
      ''propertyIsEnumerable'', ''toString'', ''valueOf'', ''__proto__'',
      ''toLocaleString'']"

definition is_digit :: "char \<Rightarrow> bool" where
  "is_digit c = (CHR ''0'' \<le> c \<and> c \<le> CHR ''9'')"

definition digit_value :: "char \<Rightarrow> int" where
  "digit_value c = of_char c - of_char CHR ''0''"

definition decimal_value :: "string \<Rightarrow> int" where
  "decimal_value s = foldl (\<lambda>n c. 10 * n + digit_value c) 0 s"

text \<open>
  An array index is the canonical decimal numeral of a number below \<open>2^32 - 1\<close>.
\<close>

definition is_array_index :: "string \<Rightarrow> bool" where
  "is_array_index k =
     (k \<noteq> [] \<and> list_all is_digit k \<and> (k = ''0'' \<or> hd k \<noteq> CHR ''0'')
      \<and> decimal_value k < 4294967295)"

text \<open>Creating an own property: its place in the key order of the object.\<close>

fun own_insert :: "string \<Rightarrow> 'v \<Rightarrow> (string \<times> 'v) list \<Rightarrow> (string \<times> 'v) list" where
  "own_insert k v [] = [(k, v)]"
| "own_insert k v ((k', v') # ps) =
     (if is_array_index k \<and> (decimal_value k < decimal_value k' \<or> \<not> is_array_index k')
      then (k, v) # (k', v') # ps
      else (k', v') # own_insert k v ps)"

text \<open>Writing an own property that exists keeps its place.\<close>

fun own_update :: "string \<Rightarrow> 'v \<Rightarrow> (string \<times> 'v) list \<Rightarrow> (string \<times> 'v) list" where
  "own_update k v [] = []"
| "own_update k v ((k', v') # ps) =
     (if k' = k then (k', v) # ps else (k', v') # own_update k v ps)"

text \<open>\<^verbatim>\<open>(acc[k] || 0) + 1\<close>\<close>

definition count_up :: "jsobj \<Rightarrow> string \<Rightarrow> jsval" where
  "count_up acc k =
     (case map_of acc k of
        Some (Num n) \<Rightarrow> Num (n + 1)
      | Some (Inh x n) \<Rightarrow> Inh x (n + 1)
      | None \<Rightarrow> if k \<in> set Object_prototype_names then Inh k 1 else Num 1)"

text \<open>\<^verbatim>\<open>acc[k] = v\<close>, for a value \<open>v\<close> that is a number or a string.\<close>

definition js_set :: "jsobj \<Rightarrow> string \<Rightarrow> jsval \<Rightarrow> jsobj" where
  "js_set acc k v =
     (if map_of acc k \<noteq> None then own_update k v acc
      else if k = ''__proto__'' then acc
      else own_insert k v acc)"

definition bump :: "jsobj \<Rightarrow> string \<Rightarrow> jsobj" where
  "bump acc k = js_set acc k (count_up acc k)"

subsection \<open>Sorting with a comparison function\<close>

text \<open>
  \<^verbatim>\<open>Array.prototype.sort\<close> is stable: with a consistent comparison function the
  result is the one stable arrangement, which insertion gives. The comparison function
  of the dashboard is \<^verbatim>\<open>(a, b) => b[1] - a[1]\<close>; on two numbers it is their
  difference, and when one side is a string of the kind above the difference is
  \<^verbatim>\<open>NaN\<close>, which the sort takes for 0.
\<close>

definition by_count_desc :: "string \<times> jsval \<Rightarrow> string \<times> jsval \<Rightarrow> int" where
  "by_count_desc a b =
     (case (snd a, snd b) of (Num x, Num y) \<Rightarrow> int y - int x | _ \<Rightarrow> 0)"

fun js_insert :: "('a \<Rightarrow> 'a \<Rightarrow> int) \<Rightarrow> 'a \<Rightarrow> 'a list \<Rightarrow> 'a list" where
  "js_insert cmp x [] = [x]"
| "js_insert cmp x (y # ys) =
     (if cmp x y \<le> 0 then x # y # ys else y # js_insert cmp x ys)"

fun js_sort :: "('a \<Rightarrow> 'a \<Rightarrow> int) \<Rightarrow> 'a list \<Rightarrow> 'a list" where
  "js_sort cmp [] = []"
| "js_sort cmp (x # xs) = js_insert cmp x (js_sort cmp xs)"

subsection \<open>The metrics\<close>

record ultimo =
  ultimo_data :: string
  ultimo_paciente :: string
  ultimo_objetivo :: string

record metrics =
  totalPlanos :: nat
  planosPorMes :: jsobj
  totalPacientes :: nat
  planosPorObjetivo :: jsobj
  ultimoPlano :: "ultimo option"
  planosUltimos7Dias :: nat
  topObjetivos :: "(string \<times> jsval) list"

text \<open>
  \<^verbatim>\<open>planos.reduce((acc, p) => { const mes = p.data?.slice(0, 7); acc[mes] = (acc[mes] || 0) + 1; return acc; }, {})\<close>
\<close>

definition planosPorMes_of :: "('a plano_scheme) list \<Rightarrow> jsobj" where
  "planosPorMes_of planos = foldl (\<lambda>acc p. bump acc (take 7 (data p))) [] planos"

text \<open>\<^verbatim>\<open>new Set(planos.map(p => p.paciente)).size\<close>\<close>

definition totalPacientes_of :: "('a plano_scheme) list \<Rightarrow> nat" where
  "totalPacientes_of planos = length (remdups (map paciente planos))"

definition planosPorObjetivo_of :: "('a plano_scheme) list \<Rightarrow> jsobj" where
  "planosPorObjetivo_of planos = foldl (\<lambda>acc p. bump acc (objetivo p)) [] planos"

text \<open>
  \<^verbatim>\<open>planos.reduce((a, b) => (a.data > b.data ? a : b))\<close>: without an initial value the
  fold starts from the first element.
\<close>

definition later :: "'a plano_scheme \<Rightarrow> 'a plano_scheme \<Rightarrow> 'a plano_scheme" where
  "later a b = (if data a > data b then a else b)"

definition ultimoPlano_of :: "'a plano_scheme \<Rightarrow> ('a plano_scheme) list \<Rightarrow> 'a plano_scheme" where
  "ultimoPlano_of p ps = foldl later p ps"

text \<open>
  \<^verbatim>\<open>planos.filter(p => new Date(p.data) >= seteDiasAtras).length\<close>. Reading a date from
  a string is a parameter: \<open>parse_date s\<close> is the time in milliseconds, or \<open>None\<close> for
  an invalid date, which compares false.
\<close>

definition planosUltimos7Dias_of ::
  "(string \<Rightarrow> int option) \<Rightarrow> int \<Rightarrow> ('a plano_scheme) list \<Rightarrow> nat" where
  "planosUltimos7Dias_of parse_date now planos =
     (let seteDiasAtras = now - 7 * 24 * 60 * 60 * 1000
      in length (filter (\<lambda>p. case parse_date (data p) of
                                None \<Rightarrow> False | Some t \<Rightarrow> t \<ge> seteDiasAtras) planos))"

text \<open>
  \<^verbatim>\<open>Object.entries(planosPorObjetivo).sort((a, b) => b[1] - a[1]).slice(0, 3)\<close>; an
  entry \<^verbatim>\<open>{ objetivo, count }\<close> is a pair.
\<close>

definition topObjetivos_of :: "jsobj \<Rightarrow> (string \<times> jsval) list" where
  "topObjetivos_of porObjetivo = take 3 (js_sort by_count_desc porObjetivo)"

text \<open>
  The body of the route after the store has answered: \<open>None\<close> is the answer
  \<^verbatim>\<open>null\<close>.
\<close>

definition dashboard_metrics ::
  "(string \<Rightarrow> int option) \<Rightarrow> int \<Rightarrow> ('a plano_scheme) list option \<Rightarrow> metrics" where
  "dashboard_metrics parse_date now planos =
     (case planos of
        None \<Rightarrow> \<lparr>totalPlanos = 0, planosPorMes = [], totalPacientes = 0,
                 planosPorObjetivo = [], ultimoPlano = None, planosUltimos7Dias = 0,
                 topObjetivos = []\<rparr>
      | Some [] \<Rightarrow> \<lparr>totalPlanos = 0, planosPorMes = [], totalPacientes = 0,
                 planosPorObjetivo = [], ultimoPlano = None, planosUltimos7Dias = 0,
                 topObjetivos = []\<rparr>
      | Some (p # ps) \<Rightarrow>
          (let u = ultimoPlano_of p ps in
           \<lparr>totalPlanos = length (p # ps),
            planosPorMes = planosPorMes_of (p # ps),
            totalPacientes = totalPacientes_of (p # ps),
            planosPorObjetivo = planosPorObjetivo_of (p # ps),
            ultimoPlano = Some \<lparr>ultimo_data = data u, ultimo_paciente = paciente u,
                                ultimo_objetivo = objetivo u\<rparr>,
            planosUltimos7Dias = planosUltimos7Dias_of parse_date now (p # ps),
            topObjetivos = topObjetivos_of (planosPorObjetivo_of (p # ps))\<rparr>))"

text \<open>
  The answer of the store to a query: \<^verbatim>\<open>{ data, error }\<close>, the error with its
  message.
\<close>

record 'a reply =
  reply_data :: "'a option"
  reply_error :: "string option"

datatype 'b response = Response nat 'b

datatype dashboard_body = Dashboard_error message | Dashboard metrics

text \<open>
  \<^verbatim>\<open>app.get('/dashboard', authenticateJWT, ...)\<close>. \<open>select_planos user_id\<close> is the
  query \<^verbatim>\<open>supabase.from('planos').select('*').eq('user_id', user_id)\<close>.
\<close>

definition dashboard ::
  "(string \<Rightarrow> string \<Rightarrow> claims option) \<Rightarrow> string \<Rightarrow>
   (string \<Rightarrow> (('a plano_scheme) list reply) call) \<Rightarrow> (string \<Rightarrow> int option) \<Rightarrow> int \<Rightarrow>
   string option \<Rightarrow> dashboard_body response" where
  "dashboard verify secret select_planos parse_date now authHeader =
     (case authenticateJWT verify secret authHeader of
        Reject status m \<Rightarrow> Response status (Dashboard_error m)
      | Next user \<Rightarrow>
          (case select_planos (jwt_id user) of
             Throws \<Rightarrow> Response 500 (Dashboard_error Erro_ao_buscar_metricas)
           | Returns r \<Rightarrow>
               (case reply_error r of
                  Some m \<Rightarrow> Response 400 (Dashboard_error (Upstream m))
                | None \<Rightarrow> Response 200 (Dashboard (dashboard_metrics parse_date now (reply_data r))))))"

section \<open>JSON values and \<^verbatim>\<open>JSON.parse\<close>\<close>

text \<open>
  A JSON value. A number is kept as its literal and a string as the characters between
  its quotes, escape sequences as written: the routes never look inside either, they test
  values for truthiness and hand them on. An object is the list of its own properties in
  the key order of the language.
\<close>

datatype json =
    JNull
  | JBool bool
  | JNumber string
  | JString string
  | JArray "json list"
  | JObject "(string \<times> json) list"

text \<open>
  Truthiness. A number is falsy when it is zero, that is when its digits before the
  exponent are all 0; a string when it is empty; objects and arrays are always truthy,
  the empty ones too.
\<close>

fun truthy :: "json \<Rightarrow> bool" where
  "truthy JNull = False"
| "truthy (JBool b) = b"
| "truthy (JNumber l) =
     list_ex (\<lambda>c. CHR ''1'' \<le> c \<and> c \<le> CHR ''9'')
       (takeWhile (\<lambda>c. c \<noteq> CHR ''e'' \<and> c \<noteq> CHR ''E'') l)"
| "truthy (JString s) = (s \<noteq> [])"
| "truthy (JArray vs) = True"
| "truthy (JObject ps) = True"

text \<open>\<^verbatim>\<open>!x\<close>, where \<open>None\<close> is \<^verbatim>\<open>undefined\<close>.\<close>

fun falsy :: "json option \<Rightarrow> bool" where
  "falsy None = True"
| "falsy (Some v) = (\<not> truthy v)"

text \<open>
  \<^verbatim>\<open>v.k\<close> for a key that \<^verbatim>\<open>Object.prototype\<close> does not have: the own property of
  an object, \<^verbatim>\<open>undefined\<close> on anything else that is not \<^verbatim>\<open>null\<close>.
\<close>

definition get_prop :: "json \<Rightarrow> string \<Rightarrow> json option" where
  "get_prop v k = (case v of JObject ps \<Rightarrow> map_of ps k | _ \<Rightarrow> None)"

subsection \<open>Tokens\<close>

datatype token =
    LBrace | RBrace | LBracket | RBracket | Colon | Comma
  | TString string | TNumber string | TTrue | TFalse | TNull

definition is_json_space :: "char \<Rightarrow> bool" where
  "is_json_space c = (c = CHR '' '' \<or> c = CHR 0x09 \<or> c = CHR 0x0A \<or> c = CHR 0x0D)"

definition is_lower :: "char \<Rightarrow> bool" where
  "is_lower c = (CHR ''a'' \<le> c \<and> c \<le> CHR ''z'')"

definition is_hex :: "char \<Rightarrow> bool" where
  "is_hex c = (is_digit c \<or> (CHR ''a'' \<le> c \<and> c \<le> CHR ''f'') \<or> (CHR ''A'' \<le> c \<and> c \<le> CHR ''F''))"

definition is_number_char :: "char \<Rightarrow> bool" where
  "is_number_char c =
     (is_digit c \<or> c = CHR ''-'' \<or> c = CHR ''+'' \<or> c = CHR ''.'' \<or> c = CHR ''e'' \<or> c = CHR ''E'')"

definition punct :: "char \<Rightarrow> token option" where
  "punct c =
     (if c = CHR ''{'' then Some LBrace else if c = CHR ''}'' then Some RBrace
      else if c = CHR ''['' then Some LBracket else if c = CHR '']'' then Some RBracket
      else if c = CHR '':'' then Some Colon else if c = CHR '','' then Some Comma
      else None)"

definition word_token :: "string \<Rightarrow> token option" where
  "word_token w =
     (if w = ''true'' then Some TTrue else if w = ''false'' then Some TFalse
      else if w = ''null'' then Some TNull else None)"

text \<open>
  The grammar of a number: an optional minus, an integer part without a leading zero, an
  optional fraction, an optional exponent. Each part gives what is left of the literal.
\<close>

definition int_part :: "string \<Rightarrow> string option" where
  "int_part l =
     (case l of [] \<Rightarrow> None
      | c # cs \<Rightarrow> if c = CHR ''0'' then Some cs
                  else if is_digit c then Some (dropWhile is_digit cs) else None)"

definition digits1 :: "string \<Rightarrow> string option" where
  "digits1 l = (case l of [] \<Rightarrow> None
      | c # cs \<Rightarrow> if is_digit c then Some (dropWhile is_digit cs) else None)"

definition frac_part :: "string \<Rightarrow> string option" where
  "frac_part l =
     (case l of [] \<Rightarrow> Some []
      | c # cs \<Rightarrow> if c = CHR ''.'' then digits1 cs else Some (c # cs))"

definition exp_part :: "string \<Rightarrow> string option" where
  "exp_part l =
     (case l of [] \<Rightarrow> Some []
      | c # cs \<Rightarrow>
          if c = CHR ''e'' \<or> c = CHR ''E''
          then (case cs of [] \<Rightarrow> None
                | s # r \<Rightarrow> if s = CHR ''+'' \<or> s = CHR ''-'' then digits1 r else digits1 (s # r))
          else Some (c # cs))"

definition is_json_number :: "string \<Rightarrow> bool" where
  "is_json_number l =
     (case int_part (case l of [] \<Rightarrow> [] | c # cs \<Rightarrow> if c = CHR ''-'' then cs else c # cs) of
        None \<Rightarrow> False
      | Some r1 \<Rightarrow> (case frac_part r1 of None \<Rightarrow> False
          | Some r2 \<Rightarrow> (case exp_part r2 of None \<Rightarrow> False | Some r3 \<Rightarrow> r3 = [])))"

text \<open>
  The scanner reads the text one character at a time. Its state says what it is in the
  middle of; the characters read so far of a string, a number or a word are kept in
  reverse. A control character inside a string, an unknown escape, an unfinished string
  and a malformed number or word are errors (\<open>None\<close>).
\<close>

datatype lstate =
    Idle | InString string | InEscape string | InHex string nat
  | InNumber string | InWord string

text \<open>
  What a character does when no string, number or word is open: the tokens it gives and
  the state it leaves.
\<close>

definition start :: "char \<Rightarrow> (token list \<times> lstate) option" where
  "start c =
     (if is_json_space c then Some ([], Idle)
      else (case punct c of
              Some t \<Rightarrow> Some ([t], Idle)
            | None \<Rightarrow>
                if c = CHR 0x22 then Some ([], InString [])
                else if c = CHR ''-'' \<or> is_digit c then Some ([], InNumber [c])
                else if is_lower c then Some ([], InWord [c])
                else None))"

fun scan :: "lstate \<Rightarrow> string \<Rightarrow> token list option" where
  "scan Idle [] = Some []"
| "scan (InString acc) [] = None"
| "scan (InEscape acc) [] = None"
| "scan (InHex acc n) [] = None"
| "scan (InNumber acc) [] = (if is_json_number (rev acc) then Some [TNumber (rev acc)] else None)"
| "scan (InWord acc) [] = map_option (\<lambda>t. [t]) (word_token (rev acc))"
| "scan Idle (c # cs) =
     (case start c of
        None \<Rightarrow> None
      | Some (out, s) \<Rightarrow> map_option (append out) (scan s cs))"
| "scan (InString acc) (c # cs) =
     (if c = CHR 0x22 then map_option (Cons (TString (rev acc))) (scan Idle cs)
      else if c = CHR 0x5C then scan (InEscape (c # acc)) cs
      else if (of_char c :: nat) < 32 then None
      else scan (InString (c # acc)) cs)"
| "scan (InEscape acc) (c # cs) =
     (if c \<in> set [CHR 0x22, CHR 0x5C, CHR ''/'', CHR ''b'', CHR ''f'', CHR ''n'', CHR ''r'', CHR ''t'']
      then scan (InString (c # acc)) cs
      else if c = CHR ''u'' then scan (InHex (c # acc) 4) cs
      else None)"
| "scan (InHex acc n) (c # cs) =
     (if is_hex c
      then (if n \<le> 1 then scan (InString (c # acc)) cs else scan (InHex (c # acc) (n - 1)) cs)
      else None)"
| "scan (InNumber acc) (c # cs) =
     (if is_number_char c then scan (InNumber (c # acc)) cs
      else if is_json_number (rev acc)
      then (case start c of
              None \<Rightarrow> None
            | Some (out, s) \<Rightarrow> map_option (\<lambda>ts. TNumber (rev acc) # out @ ts) (scan s cs))
      else None)"
| "scan (InWord acc) (c # cs) =
     (if is_lower c then scan (InWord (c # acc)) cs
      else (case word_token (rev acc) of
              None \<Rightarrow> None
            | Some t \<Rightarrow>
                (case start c of
                   None \<Rightarrow> None
                 | Some (out, s) \<Rightarrow> map_option (\<lambda>ts. t # out @ ts) (scan s cs))))"

subsection \<open>The parser\<close>

text \<open>
  The parser runs over the tokens with a stack of the arrays and objects that are open.
  A frame holds the elements read so far (of an array, in reverse) or the properties
  defined so far and the key waiting for its value (of an object). The mode says what may
  come next.
\<close>

datatype frame = FArray "json list" | FObject "(string \<times> json) list" string

datatype mode = MValue | MValueOrClose | MKeyOrClose | MKey | MColon | MSep | MDone json

text \<open>
  Defining a property of the object being built: a key that is there keeps its place and
  takes the new value, a new key goes to its place in the key order.
\<close>

definition define_prop :: "string \<Rightarrow> json \<Rightarrow> (string \<times> json) list \<Rightarrow> (string \<times> json) list" where
  "define_prop k v ps =
     (case map_of ps k of None \<Rightarrow> own_insert k v ps | Some old \<Rightarrow> own_update k v ps)"

definition after_value :: "json \<Rightarrow> frame list \<Rightarrow> mode \<times> frame list" where
  "after_value v st =
     (case st of
        [] \<Rightarrow> (MDone v, [])
      | FArray es # st' \<Rightarrow> (MSep, FArray (v # es) # st')
      | FObject ps k # st' \<Rightarrow> (MSep, FObject (define_prop k v ps) k # st'))"

definition open_value :: "token \<Rightarrow> frame list \<Rightarrow> (mode \<times> frame list) option" where
  "open_value t st =
     (case t of
        LBrace \<Rightarrow> Some (MKeyOrClose, FObject [] [] # st)
      | LBracket \<Rightarrow> Some (MValueOrClose, FArray [] # st)
      | TString s \<Rightarrow> Some (after_value (JString s) st)
      | TNumber l \<Rightarrow> Some (after_value (JNumber l) st)
      | TTrue \<Rightarrow> Some (after_value (JBool True) st)
      | TFalse \<Rightarrow> Some (after_value (JBool False) st)
      | TNull \<Rightarrow> Some (after_value JNull st)
      | _ \<Rightarrow> None)"

definition close_array :: "frame list \<Rightarrow> (mode \<times> frame list) option" where
  "close_array st =
     (case st of FArray es # st' \<Rightarrow> Some (after_value (JArray (rev es)) st') | _ \<Rightarrow> None)"

definition close_object :: "frame list \<Rightarrow> (mode \<times> frame list) option" where
  "close_object st =
     (case st of FObject ps k # st' \<Rightarrow> Some (after_value (JObject ps) st') | _ \<Rightarrow> None)"

definition set_key :: "string \<Rightarrow> frame list \<Rightarrow> (mode \<times> frame list) option" where
  "set_key k st =
     (case st of FObject ps k' # st' \<Rightarrow> Some (MColon, FObject ps k # st') | _ \<Rightarrow> None)"

fun step :: "mode \<Rightarrow> frame list \<Rightarrow> token \<Rightarrow> (mode \<times> frame list) option" where
  "step MValue st t = open_value t st"
| "step MValueOrClose st t = (if t = RBracket then close_array st else open_value t st)"
| "step MKeyOrClose st t =
     (case t of TString k \<Rightarrow> set_key k st | RBrace \<Rightarrow> close_object st | _ \<Rightarrow> None)"
| "step MKey st t = (case t of TString k \<Rightarrow> set_key k st | _ \<Rightarrow> None)"
| "step MColon st t = (if t = Colon then Some (MValue, st) else None)"
| "step MSep st t =
     (case t of
        Comma \<Rightarrow> (case st of [] \<Rightarrow> None
                   | FArray es # st' \<Rightarrow> Some (MValue, st)
                   | FObject ps k # st' \<Rightarrow> Some (MKey, st))
      | RBracket \<Rightarrow> close_array st
      | RBrace \<Rightarrow> close_object st
      | _ \<Rightarrow> None)"
| "step (MDone v) st t = None"

fun run :: "mode \<Rightarrow> frame list \<Rightarrow> token list \<Rightarrow> json option" where
  "run m st [] = (case m of MDone v \<Rightarrow> Some v | _ \<Rightarrow> None)"
| "run m st (t # ts) =
     (case step m st t of None \<Rightarrow> None | Some (m', st') \<Rightarrow> run m' st' ts)"

text \<open>\<^verbatim>\<open>JSON.parse(text)\<close>: the value, or \<open>None\<close> when it throws a syntax error.\<close>

definition JSON_parse :: "string \<Rightarrow> json option" where
  "JSON_parse text = (case scan Idle text of None \<Rightarrow> None | Some ts \<Rightarrow> run MValue [] ts)"

section \<open>Generating a plan\<close>

text \<open>
  \<^verbatim>\<open>content.match(/\{[\s\S]*\}/)\<close>: the match starts at the first \<^verbatim>\<open>{\<close> and, the
  star being greedy, ends at the last \<^verbatim>\<open>}\<close> after it; there is none when no
  \<^verbatim>\<open>}\<close> follows the first \<^verbatim>\<open>{\<close>.
\<close>

definition match_braces :: "string \<Rightarrow> string option" where
  "match_braces content =
     (let from_first = dropWhile (\<lambda>c. c \<noteq> CHR ''{'') content;
          to_last = rev (dropWhile (\<lambda>c. c \<noteq> CHR ''}'') (rev from_first))
      in if to_last = [] then None else Some to_last)"

text \<open>
  What the text-generation service returns: the choices, each with the content of its
  message, which may be \<^verbatim>\<open>null\<close>.
\<close>

record choice =
  content :: "string option"

record completion =
  choices :: "choice list"

text \<open>
  The inner \<^verbatim>\<open>try\<close> block: \<open>None\<close> when it throws (no first choice, a content that
  is \<^verbatim>\<open>null\<close>, a syntax error of \<^verbatim>\<open>JSON.parse\<close>), and else the value of
  \<^verbatim>\<open>planoJson\<close>, \<open>None\<close> standing for \<^verbatim>\<open>null\<close>.
\<close>

definition extract_plano :: "completion \<Rightarrow> json option option" where
  "extract_plano c =
     (case choices c of
        [] \<Rightarrow> None
      | ch # rest \<Rightarrow>
          (case content ch of
             None \<Rightarrow> None
           | Some text \<Rightarrow>
               (case match_braces text of
                  None \<Rightarrow> Some None
                | Some m \<Rightarrow> (case JSON_parse m of None \<Rightarrow> None | Some v \<Rightarrow> Some (Some v)))))"

text \<open>The row handed to the store.\<close>

record novo_plano =
  np_paciente :: json
  np_objetivo :: json
  np_data :: string
  np_anamnese :: json
  np_plano :: json
  np_user_id :: string

datatype 'r plano_body = Plano_error message | Plano "'r option"

text \<open>
  The end of the route: \<^verbatim>\<open>supabase.from('planos').insert([...]).select('*')\<close>, a
  parameter \<open>insert_plano\<close> that takes the table to its next state and answers the rows
  stored. \<open>now_iso\<close> is \<^verbatim>\<open>new Date().toISOString()\<close>.
\<close>

definition salvar_plano ::
  "('s \<Rightarrow> novo_plano \<Rightarrow> 's \<times> ('r list reply) call) \<Rightarrow> string \<Rightarrow> string \<Rightarrow> json \<Rightarrow> json \<Rightarrow> 's
   \<Rightarrow> 's \<times> 'r plano_body response" where
  "salvar_plano insert_plano now_iso userId anamnese planoJson st =
     (case insert_plano st \<lparr>np_paciente = the (get_prop anamnese ''nome''),
                      np_objetivo = the (get_prop anamnese ''objetivo''),
                      np_data = take 10 now_iso, np_anamnese = anamnese,
                      np_plano = planoJson, np_user_id = userId\<rparr> of
        (st', Throws) \<Rightarrow> (st', Response 500 (Plano_error Erro_ao_gerar_plano_com_IA))
      | (st', Returns r) \<Rightarrow>
          (case reply_error r of
             Some m \<Rightarrow> (st', Response 400 (Plano_error (Upstream m)))
           | None \<Rightarrow>
               (case reply_data r of
                  None \<Rightarrow> (st', Response 500 (Plano_error Erro_ao_gerar_plano_com_IA))
                | Some planoSalvo \<Rightarrow> (st', Response 200 (Plano (at planoSalvo 0))))))"

text \<open>
  \<^verbatim>\<open>app.post('/gerar-plano', authenticateJWT, ...)\<close>. \<open>create anamnese\<close> is the call
  of the text-generation service with the prompt built from the anamnesis; \<open>body\<close> is
  \<^verbatim>\<open>req.body\<close>, \<open>None\<close> when there is none; \<open>st\<close> is the table of plans.
\<close>

definition gerar_plano ::
  "(string \<Rightarrow> string \<Rightarrow> claims option) \<Rightarrow> string \<Rightarrow> (json \<Rightarrow> completion call) \<Rightarrow>
   ('s \<Rightarrow> novo_plano \<Rightarrow> 's \<times> ('r list reply) call) \<Rightarrow> string \<Rightarrow>
   string option \<Rightarrow> json option \<Rightarrow> 's \<Rightarrow> 's \<times> 'r plano_body response" where
  "gerar_plano verify secret create insert_plano now_iso authHeader body st =
     (case authenticateJWT verify secret authHeader of
        Reject status m \<Rightarrow> (st, Response status (Plano_error m))
      | Next user \<Rightarrow>
          (case body of
             None \<Rightarrow> (st, Response 400 (Plano_error Dados_de_anamnese_incompletos))
           | Some anamnese \<Rightarrow>
               if falsy (Some anamnese) \<or> falsy (get_prop anamnese ''nome'')
                  \<or> falsy (get_prop anamnese ''objetivo'')
               then (st, Response 400 (Plano_error Dados_de_anamnese_incompletos))
               else
                 (case create anamnese of
                    Throws \<Rightarrow> (st, Response 500 (Plano_error Erro_ao_gerar_plano_com_IA))
                  | Returns c \<Rightarrow>
                      (case extract_plano c of
                         None \<Rightarrow> (st, Response 400 (Plano_error Erro_ao_interpretar_resposta_da_IA))
                       | Some planoJson \<Rightarrow>
                           if falsy planoJson
                           then (st, Response 400 (Plano_error A_IA_nao_retornou_um_JSON_valido))
                           else salvar_plano insert_plano now_iso (jwt_id user) anamnese
                                  (the planoJson) st))))"

section \<open>Login and registration\<close>


record auth_user =
  auth_id :: string
  auth_email :: string





text \<open>\<^verbatim>\<open>!s\<close> for a field of the body that is a string or absent.\<close>

definition missing :: "string option \<Rightarrow> bool" where
  "missing f = (case f of None \<Rightarrow> True | Some s \<Rightarrow> s = [])"


text \<open>The profile row that registration inserts, and the columns it reads back.\<close>

record new_user =
  nu_name :: string
  nu_email :: string
  nu_password :: string
  nu_cpf_cnpj :: string
  nu_profession :: string
  nu_crn :: "string option"
  nu_uuid :: string

datatype 'r register_body = Register_error message | Registered "'r option"

record register_request =
  rq_name :: "string option"
  rq_email :: "string option"
  rq_password :: "string option"
  rq_cpf_cnpj :: "string option"
  rq_profession :: "string option"
  rq_crn :: "string option"

text \<open>
  \<^verbatim>\<open>app.post('/register', ...)\<close>. The state is the pair of the identity provider and
  the table of profiles. \<open>createUser\<close> is \<^verbatim>\<open>auth.admin.createUser\<close>, answering
  \<^verbatim>\<open>authData.user\<close>; \<open>hash\<close> is \<^verbatim>\<open>bcrypt.hash\<close>; \<open>insert_user\<close> is the insert
  into \<^verbatim>\<open>users\<close> with the rows read back.
\<close>

definition register ::
  "('a \<Rightarrow> string \<Rightarrow> string \<Rightarrow> 'a \<times> (auth_user reply) call) \<Rightarrow> (string \<Rightarrow> nat \<Rightarrow> string call) \<Rightarrow>
   ('u \<Rightarrow> new_user \<Rightarrow> 'u \<times> ('r list reply) call) \<Rightarrow> register_request \<Rightarrow> 'a \<times> 'u
   \<Rightarrow> ('a \<times> 'u) \<times> 'r register_body response" where
  "register createUser hash insert_user req st =
     (if missing (rq_name req) \<or> missing (rq_email req) \<or> missing (rq_password req)
         \<or> missing (rq_cpf_cnpj req) \<or> missing (rq_profession req)
      then (st, Response 400 (Register_error Preencha_todos_os_campos_obrigatorios))
      else
        (case createUser (fst st) (the (rq_email req)) (the (rq_password req)) of
           (a', Throws) \<Rightarrow> ((a', snd st), Response 500 (Register_error Erro_interno_do_servidor))
         | (a', Returns authData) \<Rightarrow>
             (case reply_error authData of
                Some m \<Rightarrow> ((a', snd st), Response 400 (Register_error (Upstream m)))
              | None \<Rightarrow>
                  (case reply_data authData of
                     None \<Rightarrow> ((a', snd st), Response 500 (Register_error Erro_interno_do_servidor))
                   | Some user \<Rightarrow>
                       (case hash (the (rq_password req)) 10 of
                          Throws \<Rightarrow> ((a', snd st), Response 500 (Register_error Erro_interno_do_servidor))
                        | Returns digest \<Rightarrow>
                            (case insert_user (snd st)
                                    \<lparr>nu_name = the (rq_name req), nu_email = the (rq_email req),
                                     nu_password = digest, nu_cpf_cnpj = the (rq_cpf_cnpj req),
                                     nu_profession = the (rq_profession req),
                                     nu_crn = (if missing (rq_crn req) then None else rq_crn req),
                                     nu_uuid = auth_id user\<rparr> of
                               (u', Throws) \<Rightarrow>
                                 ((a', u'), Response 500 (Register_error Erro_interno_do_servidor))
                             | (u', Returns userData) \<Rightarrow>
                                 (case reply_error userData of
                                    Some m \<Rightarrow> ((a', u'), Response 400 (Register_error (Upstream m)))
                                  | None \<Rightarrow>
                                      (case reply_data userData of
                                         None \<Rightarrow>
                                           ((a', u'), Response 500 (Register_error Erro_interno_do_servidor))
                                       | Some rows \<Rightarrow>
                                           ((a', u'), Response 200 (Registered (at rows 0)))))))))))"

section \<open>The recent plans\<close>

text \<open>
  \<^verbatim>\<open>parseInt(s)\<close> without a radix: leading white space is skipped, a sign is read, a
  prefix \<^verbatim>\<open>0x\<close> makes the radix 16, and the longest run of digits of the radix is
  the number; with no digit the result is \<^verbatim>\<open>NaN\<close>, here \<open>None\<close>. The result is an
  integer of the model (a number too large for a double is not rounded).
\<close>

definition is_js_space :: "char \<Rightarrow> bool" where
  "is_js_space c = (c \<in> set [CHR 0x09, CHR 0x0A, CHR 0x0B, CHR 0x0C, CHR 0x0D, CHR '' '', CHR 0xA0])"

definition radix_digit :: "int \<Rightarrow> char \<Rightarrow> int option" where
  "radix_digit r c =
     (let v = (if is_digit c then of_char c - 48
               else if CHR ''a'' \<le> c \<and> c \<le> CHR ''z'' then of_char c - 87
               else if CHR ''A'' \<le> c \<and> c \<le> CHR ''Z'' then of_char c - 55
               else 36)
      in if v < r then Some v else None)"

definition parseInt :: "string \<Rightarrow> int option" where
  "parseInt s =
     (let s1 = dropWhile is_js_space s;
          sign = (if take 1 s1 = ''-'' then - 1 else 1);
          s2 = (if take 1 s1 = ''-'' \<or> take 1 s1 = ''+'' then drop 1 s1 else s1);
          hex = (take 2 s2 = ''0x'' \<or> take 2 s2 = ''0X'');
          r = (if hex then 16 else 10);
          s3 = (if hex then drop 2 s2 else s2);
          z = takeWhile (\<lambda>c. radix_digit r c \<noteq> None) s3
      in if z = [] then None
         else Some (sign * foldl (\<lambda>n c. r * n + the (radix_digit r c)) 0 z))"

text \<open>
  A parameter of the query string, \<open>None\<close> when absent: \<^verbatim>\<open>parseInt\<close> reads
  \<^verbatim>\<open>undefined\<close> as the string \<^verbatim>\<open>undefined\<close>.
\<close>

definition parseInt_query :: "string option \<Rightarrow> int option" where
  "parseInt_query q = parseInt (case q of None \<Rightarrow> ''undefined'' | Some s \<Rightarrow> s)"

text \<open>\<^verbatim>\<open>n || d\<close> for a number \<open>n\<close>: \<^verbatim>\<open>NaN\<close> and 0 are falsy.\<close>

definition or_default :: "int option \<Rightarrow> int \<Rightarrow> int" where
  "or_default n d = (case n of None \<Rightarrow> d | Some v \<Rightarrow> if v = 0 then d else v)"

definition limit_of :: "string option \<Rightarrow> int" where
  "limit_of q = or_default (parseInt_query q) 5"

definition offset_of :: "string option \<Rightarrow> int" where
  "offset_of q = or_default (parseInt_query q) 0"

datatype 'r recentes_body = Recentes_error message | Recentes "'r list option" "nat option"

text \<open>
  \<^verbatim>\<open>app.get('/planos/recentes', authenticateJWT, ...)\<close>. \<open>select_range user_id from to\<close>
  is the query of the user's plans by descending date with \<^verbatim>\<open>.range(from, to)\<close>;
  \<open>select_count user_id\<close> is the count of the second query.
\<close>

definition planos_recentes ::
  "(string \<Rightarrow> string \<Rightarrow> claims option) \<Rightarrow> string \<Rightarrow>
   (string \<Rightarrow> int \<Rightarrow> int \<Rightarrow> ('r list reply) call) \<Rightarrow> (string \<Rightarrow> (nat option) call) \<Rightarrow>
   string option \<Rightarrow> string option \<Rightarrow> string option \<Rightarrow> 'r recentes_body response" where
  "planos_recentes verify secret select_range select_count authHeader limit_q offset_q =
     (case authenticateJWT verify secret authHeader of
        Reject status m \<Rightarrow> Response status (Recentes_error m)
      | Next user \<Rightarrow>
          (let limit = limit_of limit_q; offset = offset_of offset_q in
           (case select_range (jwt_id user) offset (offset + limit - 1) of
              Throws \<Rightarrow> Response 500 (Recentes_error Erro_ao_buscar_planos_recentes)
            | Returns r \<Rightarrow>
                (case reply_error r of
                   Some m \<Rightarrow> Response 400 (Recentes_error (Upstream m))
                 | None \<Rightarrow>
                     (case select_count (jwt_id user) of
                        Throws \<Rightarrow> Response 500 (Recentes_error Erro_ao_buscar_planos_recentes)
                      | Returns totalCount \<Rightarrow>
                          Response 200 (Recentes (reply_data r) totalCount))))))"

text \<open>
  The rows that a range of the store holds: \<^verbatim>\<open>.range(from, to)\<close> is inclusive at
  both ends, counted from 0.
\<close>

definition range_rows :: "'r list \<Rightarrow> int \<Rightarrow> int \<Rightarrow> 'r list" where
  "range_rows rows from to = take (nat (to - from + 1)) (drop (nat from) rows)"

section \<open>Notions used to state and prove the properties\<close>

text \<open>
  A date string that starts with a year and a month, \<^verbatim>\<open>YYYY-MM\<close>, as the calendar
  dates written by the route that creates plans do.
\<close>

fun is_year_month :: "string \<Rightarrow> bool" where
  "is_year_month (y1 # y2 # y3 # y4 # d # m1 # m2 # rest) =
     (is_digit y1 \<and> is_digit y2 \<and> is_digit y3 \<and> is_digit y4 \<and> d = CHR ''-''
      \<and> is_digit m1 \<and> is_digit m2)"
| "is_year_month s = False"

text \<open>The elements of a list in the order of their first occurrences.\<close>

definition first_occ :: "'a list \<Rightarrow> 'a list" where
  "first_occ xs = rev (remdups (rev xs))"

text \<open>The number an entry of a counter carries (0 for the strings that are no number).\<close>

definition count_of :: "string \<times> jsval \<Rightarrow> int" where
  "count_of e = (case snd e of Num n \<Rightarrow> int n | Inh x n \<Rightarrow> 0)"

text \<open>
  The top goals as the specification words them: the goals listed in the order of their
  first occurrences, each with the number of its records, sorted by descending count with
  ties left in that order, and the first three taken.
\<close>

definition topObjetivos_by_first_occurrence :: "('a plano_scheme) list \<Rightarrow> (string \<times> jsval) list" where
  "topObjetivos_by_first_occurrence planos =
     take 3 (sort_key (\<lambda>e. - count_of e)
       (map (\<lambda>g. (g, Num (length (filter (\<lambda>p. objetivo p = g) planos))))
            (first_occ (map objetivo planos))))"

text \<open>
  Two invariants of counting into an object: \<open>counted ks acc\<close> says that \<open>acc\<close> has
  each key of \<open>ks\<close> once, with the number of its occurrences; \<open>key_ordered ks K\<close>
  says that the key list \<open>K\<close> has array indices first, in ascending order, and then
  the other keys of \<open>ks\<close> in the order of their first occurrences.
\<close>

definition counted :: "string list \<Rightarrow> jsobj \<Rightarrow> bool" where
  "counted ks acc \<longleftrightarrow> distinct (map fst acc) \<and> set (map fst acc) = set ks
     \<and> (\<forall>k\<in>set ks. map_of acc k = Some (Num (count_list ks k)))"

definition key_ordered :: "string list \<Rightarrow> string list \<Rightarrow> bool" where
  "key_ordered ks K \<longleftrightarrow> (\<exists>I. K = I @ filter (\<lambda>g. \<not> is_array_index g) (first_occ ks)
      \<and> list_all is_array_index I \<and> sorted (map decimal_value I))"

text \<open>
  An invariant of the parser when the text starts with \<^verbatim>\<open>{\<close>: the frame at the
  bottom of the stack is an object, or the stack is empty and the value read is an
  object.
\<close>

definition in_object :: "mode \<Rightarrow> frame list \<Rightarrow> bool" where
  "in_object m st \<longleftrightarrow>
     (st = [] \<and> (\<exists>ps. m = MDone (JObject ps)))
     \<or> (st \<noteq> [] \<and> (\<exists>ps k. last st = FObject ps k) \<and> (\<forall>v. m \<noteq> MDone v))"

section \<open>Properties of the middleware\<close>

lemma split_not_Nil: "split c s \<noteq> []"
  by (induction s) (auto split: list.splits)

lemma split_prefix: "c \<notin> set w \<Longrightarrow> split c (w @ c # t) = w # split c t"
  by (induction w) (auto split: list.splits)

lemma at_split_prefix:
  "c \<notin> set w \<Longrightarrow> at (split c (w @ c # t)) 1 = Some (hd (split c t))"
  using split_not_Nil [of c t] by (cases "split c t") (auto simp: split_prefix at_def)

text \<open>
  Claim C9. The middleware never looks at the first word of the header. Two non-empty
  header values with the same second word (the piece between the first and the second
  space) have the same outcome, and any two header values with the same second word are
  both accepted with the same user or both answered 401. A header whose second word is a
  non-empty token that verifies is accepted with the decoded payload, so
  \<^verbatim>\<open>Foo t\<close> does what \<^verbatim>\<open>Bearer t\<close> does; a header without a second word is
  answered 401.
\<close>

theorem authenticateJWT_second_word:
  "(h \<noteq> [] \<and> h' \<noteq> [] \<and> at (split CHR '' '' h) 1 = at (split CHR '' '' h') 1 \<longrightarrow>
      authenticateJWT verify secret (Some h) = authenticateJWT verify secret (Some h'))
   \<and> (at (split CHR '' '' h) 1 = at (split CHR '' '' h') 1 \<longrightarrow>
      authenticateJWT verify secret (Some h) = authenticateJWT verify secret (Some h')
      \<or> (\<exists>m m'. authenticateJWT verify secret (Some h) = Reject 401 m
            \<and> authenticateJWT verify secret (Some h') = Reject 401 m'))
   \<and> (at (split CHR '' '' h) 1 = Some t \<and> t \<noteq> [] \<and> verify t secret = Some d \<longrightarrow>
      authenticateJWT verify secret (Some h) = Next d)
   \<and> authenticateJWT verify secret (Some (''Foo '' @ t)) =
       authenticateJWT verify secret (Some (''Bearer '' @ t))
   \<and> (at (split CHR '' '' h) 1 = None \<longrightarrow>
      (\<exists>m. authenticateJWT verify secret (Some h) = Reject 401 m))"
proof -
  have a: "h \<noteq> [] \<and> h' \<noteq> [] \<and> at (split CHR '' '' h) 1 = at (split CHR '' '' h') 1 \<longrightarrow>
      authenticateJWT verify secret (Some h) = authenticateJWT verify secret (Some h')"
    by (simp add: authenticateJWT_def)
  have b: "at (split CHR '' '' h) 1 = at (split CHR '' '' h') 1 \<longrightarrow>
      authenticateJWT verify secret (Some h) = authenticateJWT verify secret (Some h')
      \<or> (\<exists>m m'. authenticateJWT verify secret (Some h) = Reject 401 m
            \<and> authenticateJWT verify secret (Some h') = Reject 401 m')"
    by (cases "h = []"; cases "h' = []") (auto simp: authenticateJWT_def at_def split: option.splits)
  have c: "at (split CHR '' '' h) 1 = Some t \<and> t \<noteq> [] \<and> verify t secret = Some d \<longrightarrow>
      authenticateJWT verify secret (Some h) = Next d"
    by (cases "h = []") (auto simp: authenticateJWT_def at_def)
  have "at (split CHR '' '' (''Foo'' @ CHR '' '' # t)) 1 = Some (hd (split CHR '' '' t))"
    by (rule at_split_prefix) simp
  moreover have "at (split CHR '' '' (''Bearer'' @ CHR '' '' # t)) 1 = Some (hd (split CHR '' '' t))"
    by (rule at_split_prefix) simp
  ultimately have d: "authenticateJWT verify secret (Some (''Foo '' @ t)) =
       authenticateJWT verify secret (Some (''Bearer '' @ t))"
    by (simp add: authenticateJWT_def)
  have e: "at (split CHR '' '' h) 1 = None \<longrightarrow>
      (\<exists>m. authenticateJWT verify secret (Some h) = Reject 401 m)"
    by (simp add: authenticateJWT_def)
  show ?thesis using a b c d e by blast
qed

text \<open>
  With a token library that accepts the token \<^verbatim>\<open>abc\<close>: \<^verbatim>\<open>Foo abc\<close> and
  \<^verbatim>\<open>Bearer abc\<close> are both accepted, \<^verbatim>\<open>Bearer\<close> alone is answered 401.
\<close>

theorem authenticateJWT_second_word_witness:
  "authenticateJWT
     (\<lambda>t k. if t = ''abc'' then Some \<lparr>jwt_id = ''u1'', jwt_email = ''ana@x.com'', jwt_name = ''Ana''\<rparr> else None)
     (JWT_SECRET None) (Some ''Foo abc'') =
     Next \<lparr>jwt_id = ''u1'', jwt_email = ''ana@x.com'', jwt_name = ''Ana''\<rparr>
   \<and> authenticateJWT
     (\<lambda>t k. if t = ''abc'' then Some \<lparr>jwt_id = ''u1'', jwt_email = ''ana@x.com'', jwt_name = ''Ana''\<rparr> else None)
     (JWT_SECRET None) (Some ''Bearer abc'') =
     Next \<lparr>jwt_id = ''u1'', jwt_email = ''ana@x.com'', jwt_name = ''Ana''\<rparr>
   \<and> at (split CHR '' '' ''Foo abc'') 1 = Some ''abc''
   \<and> at (split CHR '' '' ''Bearer abc'') 1 = Some ''abc''
   \<and> at (split CHR '' '' ''Bearer'') 1 = None
   \<and> authenticateJWT
     (\<lambda>t k. if t = ''abc'' then Some \<lparr>jwt_id = ''u1'', jwt_email = ''ana@x.com'', jwt_name = ''Ana''\<rparr> else None)
     (JWT_SECRET None) (Some ''Bearer'') = Reject 401 Token_invalido"
proof -
  let ?v = "\<lambda>t k. if t = ''abc'' then Some \<lparr>jwt_id = ''u1'', jwt_email = ''ana@x.com'', jwt_name = ''Ana''\<rparr> else None"
  let ?d = "\<lparr>jwt_id = ''u1'', jwt_email = ''ana@x.com'', jwt_name = ''Ana''\<rparr>"
  have s: "at (split CHR '' '' ''Foo abc'') 1 = Some ''abc''"
    "at (split CHR '' '' ''Bearer abc'') 1 = Some ''abc''"
    "at (split CHR '' '' ''Bearer'') 1 = None"
    by (simp_all add: at_def)
  note t = authenticateJWT_second_word [where h = "''Foo abc''" and h' = "''Bearer abc''"
      and verify = ?v and secret = "JWT_SECRET None" and t = "''abc''" and d = ?d]
  have a: "authenticateJWT ?v (JWT_SECRET None) (Some ''Foo abc'') = Next ?d"
    by (rule t [THEN conjunct2, THEN conjunct2, THEN conjunct1, rule_format]) (simp add: at_def)
  have "authenticateJWT ?v (JWT_SECRET None) (Some ''Foo abc'') =
      authenticateJWT ?v (JWT_SECRET None) (Some ''Bearer abc'')"
    by (rule t [THEN conjunct1, rule_format]) (simp add: at_def)
  with a have b: "authenticateJWT ?v (JWT_SECRET None) (Some ''Bearer abc'') = Next ?d"
    by simp
  have c: "authenticateJWT ?v (JWT_SECRET None) (Some ''Bearer'') = Reject 401 Token_invalido"
    by (simp add: authenticateJWT_def at_def)
  show ?thesis using a b c s by blast
qed

section \<open>Properties of plan generation\<close>

lemma in_dropWhile_brace:
  "CHR ''}'' \<in> set (dropWhile (\<lambda>c. c \<noteq> CHR ''{'') s) \<longleftrightarrow>
     (\<exists>a b d. s = a @ CHR ''{'' # b @ CHR ''}'' # d)"
proof
  assume m: "CHR ''}'' \<in> set (dropWhile (\<lambda>c. c \<noteq> CHR ''{'') s)"
  then obtain x r where d: "dropWhile (\<lambda>c. c \<noteq> CHR ''{'') s = x # r"
    by (cases "dropWhile (\<lambda>c. c \<noteq> CHR ''{'') s") auto
  then have x: "x = CHR ''{''" using hd_dropWhile [of "\<lambda>c. c \<noteq> CHR ''{''" s] by force
  then have "CHR ''}'' \<in> set r" using m d by auto
  then obtain b e where "r = b @ CHR ''}'' # e" by (meson split_list)
  then have "s = takeWhile (\<lambda>c. c \<noteq> CHR ''{'') s @ CHR ''{'' # b @ CHR ''}'' # e"
    using d x takeWhile_dropWhile_id [of "\<lambda>c. c \<noteq> CHR ''{''" s] by simp
  then show "\<exists>a b d. s = a @ CHR ''{'' # b @ CHR ''}'' # d" by blast
next
  assume "\<exists>a b d. s = a @ CHR ''{'' # b @ CHR ''}'' # d"
  then obtain a b d where s: "s = a @ CHR ''{'' # b @ CHR ''}'' # d" by blast
  have "CHR ''}'' \<in> set (dropWhile (\<lambda>c. c \<noteq> CHR ''{'') (a @ CHR ''{'' # b @ CHR ''}'' # d))"
    by (induction a) auto
  then show "CHR ''}'' \<in> set (dropWhile (\<lambda>c. c \<noteq> CHR ''{'') s)" using s by simp
qed

lemma match_braces_None_iff:
  "match_braces s = None \<longleftrightarrow> \<not> (\<exists>a b d. s = a @ CHR ''{'' # b @ CHR ''}'' # d)"
proof -
  have "match_braces s = None \<longleftrightarrow> CHR ''}'' \<notin> set (dropWhile (\<lambda>c. c \<noteq> CHR ''{'') s)"
    by (auto simp: match_braces_def Let_def dropWhile_eq_Nil_conv)
  then show ?thesis by (simp add: in_dropWhile_brace)
qed

lemma match_braces_Some:
  "match_braces s = Some m \<Longrightarrow> \<exists>r. m = CHR ''{'' # r"
proof -
  assume a: "match_braces s = Some m"
  let ?f = "dropWhile (\<lambda>c. c \<noteq> CHR ''{'') s"
  have m: "m = rev (dropWhile (\<lambda>c. c \<noteq> CHR ''}'') (rev ?f))" and ne: "m \<noteq> []"
    using a by (auto simp: match_braces_def Let_def split: if_splits)
  have "?f \<noteq> []"
  proof
    assume "?f = []"
    with m have "m = []" by simp
    with ne show False by simp
  qed
  then obtain x r where d: "?f = x # r" by (cases ?f) auto
  then have x: "x = CHR ''{''" using hd_dropWhile [of "\<lambda>c. c \<noteq> CHR ''{''" s] by force
  have m': "m = rev (dropWhile (\<lambda>c. c \<noteq> CHR ''}'') (rev r @ [CHR ''{'']))"
    unfolding m d x by simp
  have "CHR ''}'' \<in> set (rev r)"
  proof (rule ccontr)
    assume "CHR ''}'' \<notin> set (rev r)"
    then have "dropWhile (\<lambda>c. c \<noteq> CHR ''}'') (rev r @ [CHR ''{'']) = []"
      by (auto simp: dropWhile_eq_Nil_conv)
    with m' ne show False by simp
  qed
  then have "dropWhile (\<lambda>c. c \<noteq> CHR ''}'') (rev r @ [CHR ''{'']) =
      dropWhile (\<lambda>c. c \<noteq> CHR ''}'') (rev r) @ [CHR ''{'']"
    by (rule dropWhile_append1) simp
  with m' show ?thesis by simp
qed

lemma step_in_object:
  assumes "in_object m st" and "step m st t = Some (m', st')"
  shows "in_object m' st'"
proof (cases "st = []")
  case True
  then show ?thesis using assms by (auto simp: in_object_def)
next
  case False
  then have l: "\<exists>ps k. last st = FObject ps k" and nd: "\<forall>v. m \<noteq> MDone v"
    using assms(1) by (auto simp: in_object_def)
  have ov: "\<And>t. open_value t st = Some (m', st') \<Longrightarrow> in_object m' st'"
    using False l
    by (auto simp: open_value_def in_object_def after_value_def split: token.splits list.splits frame.splits)
  have ca: "close_array st = Some (m', st') \<Longrightarrow> in_object m' st'"
    using False l
    by (auto simp: close_array_def in_object_def after_value_def split: list.splits frame.splits if_splits)
  have co: "close_object st = Some (m', st') \<Longrightarrow> in_object m' st'"
    using False l
    by (auto simp: close_object_def in_object_def after_value_def split: list.splits frame.splits if_splits)
  have sk: "\<And>k. set_key k st = Some (m', st') \<Longrightarrow> in_object m' st'"
    using False l
    by (auto simp: set_key_def in_object_def split: list.splits frame.splits if_splits)
  show ?thesis
  proof (cases m)
    case MValue then show ?thesis using assms(2) ov by simp
  next
    case MValueOrClose then show ?thesis using assms(2) ov ca by (simp split: if_splits)
  next
    case MKeyOrClose then show ?thesis using assms(2) sk co by (simp split: token.splits)
  next
    case MKey then show ?thesis using assms(2) sk by (simp split: token.splits)
  next
    case MColon then show ?thesis using assms(2) False l by (auto simp: in_object_def split: if_splits)
  next
    case MSep then show ?thesis using assms(2) ca co False l
      by (auto simp: in_object_def split: token.splits list.splits frame.splits)
  next
    case (MDone v) then show ?thesis using nd by simp
  qed
qed

lemma run_in_object:
  "in_object m st \<Longrightarrow> run m st ts = Some v \<Longrightarrow> \<exists>ps. v = JObject ps"
proof (induction ts arbitrary: m st)
  case Nil
  then show ?case by (auto simp: in_object_def split: mode.splits)
next
  case (Cons t ts)
  then obtain m' st' where s: "step m st t = Some (m', st')" and r: "run m' st' ts = Some v"
    by (auto split: option.splits)
  from step_in_object [OF Cons.prems(1) s] r show ?case by (rule Cons.IH)
qed

lemma JSON_parse_brace:
  assumes "JSON_parse (CHR ''{'' # r) = Some v"
  shows "\<exists>ps. v = JObject ps"
proof -
  have "start CHR ''{'' = Some ([LBrace], Idle)" by (simp add: start_def is_json_space_def punct_def)
  then obtain ts where ts: "scan Idle r = Some ts" and v: "run MValue [] (LBrace # ts) = Some v"
    using assms by (auto simp: JSON_parse_def split: option.splits)
  then have "run MKeyOrClose [FObject [] []] ts = Some v" by (simp add: open_value_def)
  moreover have "in_object MKeyOrClose [FObject [] []]" by (simp add: in_object_def)
  ultimately show ?thesis by (rule run_in_object [rotated])
qed

text \<open>
  Claim C1. When the request is authenticated, the anamnesis has a name and a goal, and
  the text that the service returns has no \<^verbatim>\<open>{\<close> followed later by a \<^verbatim>\<open>}\<close>, the
  route answers 400 with the message that no valid JSON was returned, and the table of
  plans is left as it was. The answer is the same for every function \<open>insert_plano\<close>:
  the insert is not reached.
\<close>

theorem gerar_plano_no_braces:
  assumes "authenticateJWT verify secret authHeader = Next user"
    and "\<not> falsy (Some anamnese)" and "\<not> falsy (get_prop anamnese ''nome'')"
    and "\<not> falsy (get_prop anamnese ''objetivo'')"
    and "create anamnese = Returns c" and "choices c = ch # others"
    and "content ch = Some answer"
    and "\<not> (\<exists>a b d. answer = a @ CHR ''{'' # b @ CHR ''}'' # d)"
  shows "gerar_plano verify secret create insert_plano now_iso authHeader (Some anamnese) st =
           (st, Response 400 (Plano_error A_IA_nao_retornou_um_JSON_valido))"
proof -
  have "match_braces answer = None" using assms(8) by (simp add: match_braces_None_iff)
  then have "extract_plano c = Some None" using assms(6,7) by (simp add: extract_plano_def)
  then show ?thesis using assms(1-5) by (simp add: gerar_plano_def)
qed

text \<open>
  A service that answers a sentence without braces, and a store that would keep the row:
  the answer is 400 and the table stays empty.
\<close>

theorem gerar_plano_no_braces_witness:
  "gerar_plano
     (\<lambda>t k. if t = ''abc'' then Some \<lparr>jwt_id = ''u1'', jwt_email = ''ana@x.com'', jwt_name = ''Ana''\<rparr> else None)
     (JWT_SECRET None)
     (\<lambda>a. Returns \<lparr>choices = [\<lparr>content = Some ''Desculpe, sem plano.''\<rparr>]\<rparr>)
     (\<lambda>st p. (p # st, Returns \<lparr>reply_data = Some [p], reply_error = None\<rparr>))
     ''2026-11-03T10:00:00.000Z'' (Some ''Bearer abc'')
     (Some (JObject [(''nome'', JString ''Ana''), (''objetivo'', JString ''perda de peso'')]))
     [] =
   ([], Response 400 (Plano_error A_IA_nao_retornou_um_JSON_valido))"
proof (rule gerar_plano_no_braces [where user = "\<lparr>jwt_id = ''u1'', jwt_email = ''ana@x.com'', jwt_name = ''Ana''\<rparr>"
      and c = "\<lparr>choices = [\<lparr>content = Some ''Desculpe, sem plano.''\<rparr>]\<rparr>"
      and ch = "\<lparr>content = Some ''Desculpe, sem plano.''\<rparr>" and others = "[]"
      and answer = "''Desculpe, sem plano.''"])
  show "\<not> (\<exists>a b d. ''Desculpe, sem plano.'' = a @ CHR ''{'' # b @ CHR ''}'' # d)"
    using match_braces_None_iff [of "''Desculpe, sem plano.''"] by (simp add: match_braces_def)
qed (simp_all add: authenticateJWT_def at_def get_prop_def)

text \<open>
  Claim C2, as amended. When the request is authenticated, the anamnesis has a name and
  a goal, and the span of braces of the returned text parses, the value parsed is an
  object; an object is truthy, the empty one too, so the route does not reject it: it
  goes on to the insert with the parsed value, and the answer is what the insert gives
  (200 with the stored row, 400 with the message of the store, or 500).
\<close>

theorem gerar_plano_parsed:
  assumes "authenticateJWT verify secret authHeader = Next user"
    and "\<not> falsy (Some anamnese)" and "\<not> falsy (get_prop anamnese ''nome'')"
    and "\<not> falsy (get_prop anamnese ''objetivo'')"
    and "create anamnese = Returns c" and "choices c = ch # others"
    and "content ch = Some answer"
    and "match_braces answer = Some m" and "JSON_parse m = Some v"
  shows "(\<exists>ps. v = JObject ps) \<and> truthy v
     \<and> gerar_plano verify secret create insert_plano now_iso authHeader (Some anamnese) st =
         salvar_plano insert_plano now_iso (jwt_id user) anamnese v st"
proof -
  obtain r where "m = CHR ''{'' # r" using assms(8) match_braces_Some by blast
  then obtain ps where v: "v = JObject ps" using assms(9) JSON_parse_brace by blast
  have "extract_plano c = Some (Some v)" using assms(6-9) by (simp add: extract_plano_def)
  then have "gerar_plano verify secret create insert_plano now_iso authHeader (Some anamnese) st =
         salvar_plano insert_plano now_iso (jwt_id user) anamnese v st"
    using assms(1-5) v by (simp add: gerar_plano_def)
  then show ?thesis using v by simp
qed

text \<open>
  A returned text with prose around one object: the object is extracted, parsed and
  stored, and the answer is 200 with the stored row.
\<close>

theorem gerar_plano_parsed_witness:
  "match_braces ''Segue: {\"resumo\":\"ok\"} fim'' = Some ''{\"resumo\":\"ok\"}''
   \<and> JSON_parse ''{\"resumo\":\"ok\"}'' = Some (JObject [(''resumo'', JString ''ok'')])
   \<and> gerar_plano
     (\<lambda>t k. if t = ''abc'' then Some \<lparr>jwt_id = ''u1'', jwt_email = ''ana@x.com'', jwt_name = ''Ana''\<rparr> else None)
     (JWT_SECRET None)
     (\<lambda>a. Returns \<lparr>choices = [\<lparr>content = Some ''Segue: {\"resumo\":\"ok\"} fim''\<rparr>]\<rparr>)
     (\<lambda>st p. (p # st, Returns \<lparr>reply_data = Some [p], reply_error = None\<rparr>))
     ''2026-11-03T10:00:00.000Z'' (Some ''Bearer abc'')
     (Some (JObject [(''nome'', JString ''Ana''), (''objetivo'', JString ''perda de peso'')]))
     [] =
   ([\<lparr>np_paciente = JString ''Ana'', np_objetivo = JString ''perda de peso'',
      np_data = ''2026-11-03'',
      np_anamnese = JObject [(''nome'', JString ''Ana''), (''objetivo'', JString ''perda de peso'')],
      np_plano = JObject [(''resumo'', JString ''ok'')], np_user_id = ''u1''\<rparr>],
    Response 200 (Plano (Some
     \<lparr>np_paciente = JString ''Ana'', np_objetivo = JString ''perda de peso'',
      np_data = ''2026-11-03'',
      np_anamnese = JObject [(''nome'', JString ''Ana''), (''objetivo'', JString ''perda de peso'')],
      np_plano = JObject [(''resumo'', JString ''ok'')], np_user_id = ''u1''\<rparr>)))"
proof -
  let ?verify = "\<lambda>t k. if t = ''abc'' then Some \<lparr>jwt_id = ''u1'', jwt_email = ''ana@x.com'', jwt_name = ''Ana''\<rparr> else None"
  let ?create = "\<lambda>a::json. Returns \<lparr>choices = [\<lparr>content = Some ''Segue: {\"resumo\":\"ok\"} fim''\<rparr>]\<rparr>"
  let ?insert = "\<lambda>(st::novo_plano list) p. (p # st, Returns \<lparr>reply_data = Some [p], reply_error = None\<rparr>)"
  let ?body = "JObject [(''nome'', JString ''Ana''), (''objetivo'', JString ''perda de peso'')]"
  have m: "match_braces ''Segue: {\"resumo\":\"ok\"} fim'' = Some ''{\"resumo\":\"ok\"}''"
    by (simp add: match_braces_def)
  have p: "JSON_parse ''{\"resumo\":\"ok\"}'' = Some (JObject [(''resumo'', JString ''ok'')])"
    by code_simp
  have "gerar_plano ?verify (JWT_SECRET None) ?create ?insert ''2026-11-03T10:00:00.000Z''
          (Some ''Bearer abc'') (Some ?body) [] =
        salvar_plano ?insert ''2026-11-03T10:00:00.000Z''
          (jwt_id \<lparr>jwt_id = ''u1'', jwt_email = ''ana@x.com'', jwt_name = ''Ana''\<rparr>) ?body
          (JObject [(''resumo'', JString ''ok'')]) []"
    by (rule gerar_plano_parsed [where c = "\<lparr>choices = [\<lparr>content = Some ''Segue: {\"resumo\":\"ok\"} fim''\<rparr>]\<rparr>"
          and ch = "\<lparr>content = Some ''Segue: {\"resumo\":\"ok\"} fim''\<rparr>" and others = "[]"
          and answer = "''Segue: {\"resumo\":\"ok\"} fim''" and m = "''{\"resumo\":\"ok\"}''",
          THEN conjunct2, THEN conjunct2])
       (simp_all add: m p authenticateJWT_def at_def get_prop_def)
  then show ?thesis using m p by (simp add: salvar_plano_def get_prop_def at_def)
qed

text \<open>
  Claim C2, as stated, fails: when the service returns \<^verbatim>\<open>{}\<close>, the span parses to
  the empty object, and the route stores a row with that plan and answers 200 with it.
\<close>

theorem gerar_plano_empty_object_counterexample:
  "match_braces ''{}'' = Some ''{}'' \<and> JSON_parse ''{}'' = Some (JObject [])
   \<and> gerar_plano
     (\<lambda>t k. if t = ''abc'' then Some \<lparr>jwt_id = ''u1'', jwt_email = ''ana@x.com'', jwt_name = ''Ana''\<rparr> else None)
     (JWT_SECRET None)
     (\<lambda>a. Returns \<lparr>choices = [\<lparr>content = Some ''{}''\<rparr>]\<rparr>)
     (\<lambda>st p. (p # st, Returns \<lparr>reply_data = Some [p], reply_error = None\<rparr>))
     ''2026-11-03T10:00:00.000Z'' (Some ''Bearer abc'')
     (Some (JObject [(''nome'', JString ''Ana''), (''objetivo'', JString ''perda de peso'')]))
     [] =
   ([\<lparr>np_paciente = JString ''Ana'', np_objetivo = JString ''perda de peso'',
      np_data = ''2026-11-03'',
      np_anamnese = JObject [(''nome'', JString ''Ana''), (''objetivo'', JString ''perda de peso'')],
      np_plano = JObject [], np_user_id = ''u1''\<rparr>],
    Response 200 (Plano (Some
     \<lparr>np_paciente = JString ''Ana'', np_objetivo = JString ''perda de peso'',
      np_data = ''2026-11-03'',
      np_anamnese = JObject [(''nome'', JString ''Ana''), (''objetivo'', JString ''perda de peso'')],
      np_plano = JObject [], np_user_id = ''u1''\<rparr>)))"
proof -
  have m: "match_braces ''{}'' = Some ''{}''" by (simp add: match_braces_def)
  have p: "JSON_parse ''{}'' = Some (JObject [])" by code_simp
  show ?thesis
    by (simp add: m p gerar_plano_def authenticateJWT_def at_def get_prop_def extract_plano_def
        salvar_plano_def)
qed

text \<open>
  The third way of the inner block: when the span of braces does not parse, the
  \<^verbatim>\<open>catch\<close> answers 400 and the table of plans is left as it was.
\<close>

lemma gerar_plano_parse_failure:
  assumes "authenticateJWT verify secret authHeader = Next user"
    and "\<not> falsy (Some anamnese)" and "\<not> falsy (get_prop anamnese ''nome'')"
    and "\<not> falsy (get_prop anamnese ''objetivo'')"
    and "create anamnese = Returns c" and "choices c = ch # others"
    and "content ch = Some answer"
    and "match_braces answer = Some m" and "JSON_parse m = None"
  shows "gerar_plano verify secret create insert_plano now_iso authHeader (Some anamnese) st =
           (st, Response 400 (Plano_error Erro_ao_interpretar_resposta_da_IA))"
proof -
  have "extract_plano c = None" using assms(6-9) by (simp add: extract_plano_def)
  then show ?thesis using assms(1-5) by (simp add: gerar_plano_def)
qed

section \<open>Properties of the dashboard\<close>

text \<open>
  When the request is authenticated and the store answers without an error, the route
  answers 200 with the metrics of the rows: the properties of the metrics below are
  properties of the answer.
\<close>

lemma dashboard_answers_metrics:
  assumes "authenticateJWT verify secret authHeader = Next user"
    and "select_planos (jwt_id user) = Returns r" and "reply_error r = None"
  shows "dashboard verify secret select_planos parse_date now authHeader =
           Response 200 (Dashboard (dashboard_metrics parse_date now (reply_data r)))"
  using assms by (simp add: dashboard_def)

text \<open>
  Claim C3. For the empty list of plan records the metrics are exactly the zero shape:
  every count 0, both mappings empty, no last plan, no top goals; and this whatever the
  date parser and the clock are, so neither is consulted.
\<close>

theorem dashboard_metrics_empty:
  "dashboard_metrics parse_date now (Some []) =
     \<lparr>totalPlanos = 0, planosPorMes = [], totalPacientes = 0, planosPorObjetivo = [],
      ultimoPlano = None, planosUltimos7Dias = 0, topObjetivos = []\<rparr>"
  by (simp add: dashboard_metrics_def)

lemma foldl_later_split:
  "\<exists>xs ys. a # ps = xs @ foldl later a ps # ys
     \<and> (\<forall>q\<in>set xs. data q \<le> data (foldl later a ps))
     \<and> (\<forall>q\<in>set ys. data q < data (foldl later a ps))"
proof (induction ps rule: rev_induct)
  case Nil
  show ?case by (rule exI[of _ "[]"], rule exI[of _ "[]"]) simp
next
  case (snoc b ps)
  then obtain xs ys where s: "a # ps = xs @ foldl later a ps # ys"
    and le: "\<forall>q\<in>set xs. data q \<le> data (foldl later a ps)"
    and lt: "\<forall>q\<in>set ys. data q < data (foldl later a ps)" by blast
  let ?u = "foldl later a ps"
  show ?case
  proof (cases "data ?u > data b")
    case True
    then have e: "foldl later a (ps @ [b]) = ?u" by (simp add: later_def)
    have "a # ps @ [b] = xs @ ?u # (ys @ [b])" using s by simp
    moreover have "\<forall>q\<in>set (ys @ [b]). data q < data ?u" using lt True by simp
    ultimately show ?thesis unfolding e using le by blast
  next
    case False
    then have e: "foldl later a (ps @ [b]) = b" by (simp add: later_def)
    have "set (a # ps) = set xs \<union> {?u} \<union> set ys"
      by (subst s) simp
    then have "\<forall>q\<in>set (a # ps). data q \<le> data ?u" using le lt by auto
    then have "\<forall>q\<in>set (a # ps). data q \<le> data b" using False by auto
    moreover have "a # ps @ [b] = (a # ps) @ b # []" by simp
    ultimately show ?thesis unfolding e by (metis empty_iff empty_set)
  qed
qed

text \<open>
  Claim C4. For a non-empty list of plan records, the last plan of the dashboard is a
  record \<open>u\<close> of the list whose date string is maximal in the lexicographic order:
  no record before \<open>u\<close> has a greater date and every record after \<open>u\<close> has a
  strictly smaller one, so among the records with the greatest date the one seen last
  by the left fold wins. Only its date, subject name and goal are reported.
\<close>

theorem dashboard_ultimoPlano:
  "\<exists>u xs ys. p # ps = xs @ u # ys
     \<and> (\<forall>q\<in>set xs. data q \<le> data u)
     \<and> (\<forall>q\<in>set ys. data q < data u)
     \<and> ultimoPlano (dashboard_metrics parse_date now (Some (p # ps))) =
         Some \<lparr>ultimo_data = data u, ultimo_paciente = paciente u,
               ultimo_objetivo = objetivo u\<rparr>"
proof -
  obtain xs ys where "p # ps = xs @ foldl later p ps # ys"
    and "\<forall>q\<in>set xs. data q \<le> data (foldl later p ps)"
    and "\<forall>q\<in>set ys. data q < data (foldl later p ps)"
    using foldl_later_split [of p ps] by blast
  moreover have "ultimoPlano (dashboard_metrics parse_date now (Some (p # ps))) =
      Some \<lparr>ultimo_data = data (foldl later p ps), ultimo_paciente = paciente (foldl later p ps),
            ultimo_objetivo = objetivo (foldl later p ps)\<rparr>"
    by (simp add: dashboard_metrics_def ultimoPlano_of_def Let_def)
  ultimately show ?thesis by blast
qed

text \<open>
  Three records, the second and the third with the same greatest date: the third is
  reported.
\<close>

theorem dashboard_ultimoPlano_witness:
  "ultimoPlano (dashboard_metrics (\<lambda>s. None) 0 (Some
      [\<lparr>data = ''2024-02-10'', paciente = ''Ana'', objetivo = ''ganho''\<rparr>,
       \<lparr>data = ''2024-03-01'', paciente = ''Bia'', objetivo = ''perda''\<rparr>,
       \<lparr>data = ''2024-03-01'', paciente = ''Caio'', objetivo = ''saude''\<rparr>])) =
     Some \<lparr>ultimo_data = ''2024-03-01'', ultimo_paciente = ''Caio'',
           ultimo_objetivo = ''saude''\<rparr>
   \<and> (\<exists>u xs ys.
      [\<lparr>data = ''2024-02-10'', paciente = ''Ana'', objetivo = ''ganho''\<rparr>,
       \<lparr>data = ''2024-03-01'', paciente = ''Bia'', objetivo = ''perda''\<rparr>,
       \<lparr>data = ''2024-03-01'', paciente = ''Caio'', objetivo = ''saude''\<rparr>] = xs @ u # ys
     \<and> (\<forall>q\<in>set xs. data q \<le> data u)
     \<and> (\<forall>q\<in>set ys. data q < data u)
     \<and> data u = ''2024-03-01'' \<and> paciente u = ''Caio'')"
proof -
  let ?l = "[\<lparr>data = ''2024-02-10'', paciente = ''Ana'', objetivo = ''ganho''\<rparr>,
       \<lparr>data = ''2024-03-01'', paciente = ''Bia'', objetivo = ''perda''\<rparr>,
       \<lparr>data = ''2024-03-01'', paciente = ''Caio'', objetivo = ''saude''\<rparr>]"
  have v: "ultimoPlano (dashboard_metrics (\<lambda>s. None) 0 (Some ?l)) =
     Some \<lparr>ultimo_data = ''2024-03-01'', ultimo_paciente = ''Caio'',
           ultimo_objetivo = ''saude''\<rparr>"
    by (simp add: dashboard_metrics_def ultimoPlano_of_def later_def Let_def)
  from dashboard_ultimoPlano [of "\<lparr>data = ''2024-02-10'', paciente = ''Ana'', objetivo = ''ganho''\<rparr>"
      "[\<lparr>data = ''2024-03-01'', paciente = ''Bia'', objetivo = ''perda''\<rparr>,
       \<lparr>data = ''2024-03-01'', paciente = ''Caio'', objetivo = ''saude''\<rparr>]" "\<lambda>s. None" 0]
  obtain u xs ys where f: "?l = xs @ u # ys"
     "\<forall>q\<in>set xs. data q \<le> data u" "\<forall>q\<in>set ys. data q < data u"
     and g: "ultimoPlano (dashboard_metrics (\<lambda>s. None) 0 (Some ?l)) =
         Some \<lparr>ultimo_data = data u, ultimo_paciente = paciente u,
               ultimo_objetivo = objetivo u\<rparr>" by blast
  have "data u = ''2024-03-01''" and "paciente u = ''Caio''"
    using g unfolding v by simp_all
  with f have "\<exists>u xs ys. ?l = xs @ u # ys
     \<and> (\<forall>q\<in>set xs. data q \<le> data u) \<and> (\<forall>q\<in>set ys. data q < data u)
     \<and> data u = ''2024-03-01'' \<and> paciente u = ''Caio''" by blast
  with v show ?thesis by (rule conjI)
qed

subsection \<open>Counting into an object\<close>


lemma map_fst_own_update: "map fst (own_update k v acc) = map fst acc"
  by (induction acc) auto

lemma map_of_own_update:
  "map_of (own_update k v acc) k' =
     (if k' = k \<and> map_of acc k \<noteq> None then Some v else map_of acc k')"
  by (induction acc) auto

lemma set_own_insert: "set (own_insert k v acc) = insert (k, v) (set acc)"
  by (induction acc) (auto split: if_splits)

lemma set_fst_own_insert: "fst ` set (own_insert k v acc) = insert k (fst ` set acc)"
  by (simp add: set_own_insert)

lemma distinct_own_insert:
  "k \<notin> fst ` set acc \<Longrightarrow> distinct (map fst acc) \<Longrightarrow> distinct (map fst (own_insert k v acc))"
  by (induction acc) (auto simp: set_own_insert)

lemma map_of_own_insert:
  "k \<notin> fst ` set acc \<Longrightarrow>
   map_of (own_insert k v acc) k' = (if k' = k then Some v else map_of acc k')"
  by (induction acc) auto

lemma map_of_None_iff: "map_of acc k = None \<longleftrightarrow> k \<notin> fst ` set acc"
  by (simp add: map_of_eq_None_iff)

lemma counted_bump:
  assumes "counted ks acc" and "k \<notin> set Object_prototype_names"
  shows "counted (ks @ [k]) (bump acc k)"
proof (cases "k \<in> set ks")
  case True
  then have m: "map_of acc k = Some (Num (count_list ks k))" using assms by (simp add: counted_def)
  then have b: "bump acc k = own_update k (Num (count_list ks k + 1)) acc"
    by (simp add: bump_def js_set_def count_up_def)
  show ?thesis using assms True m unfolding b counted_def
    by (auto simp: map_fst_own_update map_of_own_update)
next
  case False
  then have n: "k \<notin> fst ` set acc" using assms by (simp add: counted_def)
  then have m: "map_of acc k = None" by (simp add: map_of_None_iff)
  have np: "k \<noteq> ''__proto__''" using assms(2) by (auto simp: Object_prototype_names_def)
  have b: "bump acc k = own_insert k (Num 1) acc"
    using m np assms(2) by (simp add: bump_def js_set_def count_up_def)
  show ?thesis using assms False n unfolding b counted_def
    by (auto simp: set_fst_own_insert distinct_own_insert map_of_own_insert)
qed

lemma counted_foldl:
  "\<forall>k\<in>set ks. k \<notin> set Object_prototype_names \<Longrightarrow> counted ks (foldl bump [] ks)"
proof (induction ks rule: rev_induct)
  case Nil
  show ?case by (simp add: counted_def)
next
  case (snoc k ks)
  then show ?case by (simp add: counted_bump)
qed


lemma first_occ_snoc:
  "first_occ (xs @ [x]) = (if x \<in> set xs then first_occ xs else first_occ xs @ [x])"
  by (simp add: first_occ_def)

lemma own_insert_other:
  "\<not> is_array_index k \<Longrightarrow> own_insert k v acc = acc @ [(k, v)]"
  by (induction acc) auto

lemma own_insert_index:
  assumes "is_array_index k" and "list_all (\<lambda>g. \<not> is_array_index g) Os"
  shows "map fst acc = I @ Os \<Longrightarrow> list_all is_array_index I \<Longrightarrow> sorted (map decimal_value I) \<Longrightarrow>
    \<exists>I'. map fst (own_insert k v acc) = I' @ Os \<and> list_all is_array_index I'
       \<and> sorted (map decimal_value I') \<and> set I' = insert k (set I)"
proof (induction I arbitrary: acc)
  case Nil
  show ?case
  proof (cases acc)
    case Nil
    then show ?thesis using Nil.prems assms by (intro exI[of _ "[k]"]) simp
  next
    case (Cons a acc')
    then have "\<not> is_array_index (fst a)" using Nil.prems assms(2) by (cases Os) auto
    then show ?thesis using Cons Nil.prems assms(1) by (intro exI[of _ "[k]"]) (cases a, auto)
  qed
next
  case (Cons i I)
  then obtain vi acc' where acc: "acc = (i, vi) # acc'" and m: "map fst acc' = I @ Os"
    by (cases acc) auto
  show ?case
  proof (cases "decimal_value k < decimal_value i")
    case True
    then have "own_insert k v acc = (k, v) # acc" using acc assms(1) by simp
    then show ?thesis using Cons.prems True assms(1)
      by (intro exI[of _ "k # i # I"]) auto
  next
    case False
    have ii: "is_array_index i" using Cons.prems by simp
    then have e: "own_insert k v acc = (i, vi) # own_insert k v acc'" using acc False by simp
    from Cons.IH [OF m] Cons.prems obtain I' where
      I': "map fst (own_insert k v acc') = I' @ Os" "list_all is_array_index I'"
          "sorted (map decimal_value I')" "set I' = insert k (set I)" by auto
    show ?thesis using I' e ii False Cons.prems
      by (intro exI[of _ "i # I'"]) auto
  qed
qed

lemma key_ordered_bump:
  assumes "counted ks acc" and "key_ordered ks (map fst acc)" and "k \<notin> set Object_prototype_names"
  shows "key_ordered (ks @ [k]) (map fst (bump acc k))"
proof (cases "k \<in> set ks")
  case True
  then have m: "map_of acc k = Some (Num (count_list ks k))" using assms by (simp add: counted_def)
  then have b: "bump acc k = own_update k (Num (count_list ks k + 1)) acc"
    by (simp add: bump_def js_set_def count_up_def)
  show ?thesis using assms(2) True unfolding b by (simp add: map_fst_own_update key_ordered_def first_occ_snoc)
next
  case False
  then have n: "k \<notin> fst ` set acc" using assms by (simp add: counted_def)
  then have m: "map_of acc k = None" by (simp add: map_of_None_iff)
  have np: "k \<noteq> ''__proto__''" using assms(3) by (auto simp: Object_prototype_names_def)
  have b: "bump acc k = own_insert k (Num 1) acc"
    using m np assms(3) by (simp add: bump_def js_set_def count_up_def)
  from assms(2) obtain I where I: "map fst acc = I @ filter (\<lambda>g. \<not> is_array_index g) (first_occ ks)"
    "list_all is_array_index I" "sorted (map decimal_value I)" unfolding key_ordered_def by blast
  show ?thesis
  proof (cases "is_array_index k")
    case True
    have "list_all (\<lambda>g. \<not> is_array_index g) (filter (\<lambda>g. \<not> is_array_index g) (first_occ ks))"
      by (simp add: list_all_iff)
    from own_insert_index [OF True this I, of "Num 1"] obtain I' where
      "map fst (own_insert k (Num 1) acc) = I' @ filter (\<lambda>g. \<not> is_array_index g) (first_occ ks)"
      "list_all is_array_index I'" "sorted (map decimal_value I')" by blast
    then show ?thesis unfolding b key_ordered_def using True False
      by (auto simp: first_occ_snoc)
  next
    case nidx: False
    then show ?thesis unfolding b key_ordered_def using I False
      by (auto simp: first_occ_snoc own_insert_other)
  qed
qed

lemma key_ordered_foldl:
  "\<forall>k\<in>set ks. k \<notin> set Object_prototype_names \<Longrightarrow> key_ordered ks (map fst (foldl bump [] ks))"
proof (induction ks rule: rev_induct)
  case Nil
  show ?case by (simp add: key_ordered_def first_occ_def)
next
  case (snoc k ks)
  then show ?case using counted_foldl [of ks] by (simp add: key_ordered_bump)
qed

lemma key_ordered_filter:
  assumes "key_ordered ks K"
  shows "K = filter is_array_index K @ filter (\<lambda>g. \<not> is_array_index g) (first_occ ks)
     \<and> sorted (map decimal_value (filter is_array_index K))"
proof -
  from assms obtain I where I: "K = I @ filter (\<lambda>g. \<not> is_array_index g) (first_occ ks)"
    "list_all is_array_index I" "sorted (map decimal_value I)" unfolding key_ordered_def by blast
  have "filter is_array_index K = I"
    by (subst I(1)) (use I(2) in \<open>simp add: list_all_iff\<close>)
  then show ?thesis using I by simp
qed

lemma js_insert_insort:
  "\<exists>n. snd x = Num n \<Longrightarrow> \<forall>e\<in>set ys. \<exists>n. snd e = Num n \<Longrightarrow>
   js_insert by_count_desc x ys = insort_key (\<lambda>e. - count_of e) x ys"
  by (induction ys) (auto simp: by_count_desc_def count_of_def)

lemma js_sort_sort_key:
  "\<forall>e\<in>set xs. \<exists>n. snd e = Num n \<Longrightarrow>
   js_sort by_count_desc xs = sort_key (\<lambda>e. - count_of e) xs"
proof (induction xs)
  case Nil
  show ?case by simp
next
  case (Cons x xs)
  then have "js_sort by_count_desc xs = sort_key (\<lambda>e. - count_of e) xs" by simp
  moreover have "\<forall>e\<in>set (sort_key (\<lambda>e. - count_of e) xs). \<exists>n. snd e = Num n" using Cons.prems by simp
  ultimately show ?case using Cons.prems by (simp add: js_insert_insort)
qed

lemma count_list_map: "count_list (map f xs) k = length (filter (\<lambda>p. f p = k) xs)"
  by (induction xs) auto

lemma counted_entries:
  assumes "counted ks acc"
  shows "acc = map (\<lambda>g. (g, Num (count_list ks g))) (map fst acc)"
proof -
  have "\<forall>e\<in>set acc. e = (fst e, Num (count_list ks (fst e)))"
  proof
    fix e assume e: "e \<in> set acc"
    then have "fst e \<in> set ks" using assms unfolding counted_def by force
    then have "map_of acc (fst e) = Some (Num (count_list ks (fst e)))" using assms by (simp add: counted_def)
    moreover have "map_of acc (fst e) = Some (snd e)" using assms e by (simp add: counted_def)
    ultimately show "e = (fst e, Num (count_list ks (fst e)))" by (cases e) simp
  qed
  then have "map (\<lambda>e. (fst e, Num (count_list ks (fst e)))) acc = acc" by (simp add: map_idI)
  then show ?thesis by (simp add: comp_def)
qed

subsection \<open>The mappings and the top goals\<close>

lemma year_month_key:
  "is_year_month d \<Longrightarrow> length (take 7 d) = 7 \<and> take 7 d \<notin> set Object_prototype_names"
  by (erule is_year_month.elims) (simp_all add: Object_prototype_names_def)

lemma metrics_planosPorMes:
  "planosPorMes (dashboard_metrics parse_date now (Some planos)) =
     foldl bump [] (map (\<lambda>p. take 7 (data p)) planos)"
  by (cases planos) (simp_all add: dashboard_metrics_def planosPorMes_of_def Let_def foldl_map)

lemma metrics_planosPorObjetivo:
  "planosPorObjetivo (dashboard_metrics parse_date now (Some planos)) =
     foldl bump [] (map objetivo planos)"
  by (cases planos) (simp_all add: dashboard_metrics_def planosPorObjetivo_of_def Let_def foldl_map)

lemma metrics_topObjetivos:
  "topObjetivos (dashboard_metrics parse_date now (Some planos)) =
     take 3 (js_sort by_count_desc (planosPorObjetivo (dashboard_metrics parse_date now (Some planos))))"
  by (cases planos) (simp_all add: dashboard_metrics_def topObjetivos_of_def Let_def)

text \<open>
  Claim C6. For every list of plan records whose dates start with a year and a month
  (\<^verbatim>\<open>YYYY-MM\<close>), the mapping of plans per month has each key once; every key is
  exactly 7 characters long and is the first 7 characters of the date of some record;
  its value is the number of records whose date has that prefix; and the prefix of every
  record is a key.
\<close>

theorem dashboard_planosPorMes:
  assumes "\<forall>p\<in>set planos. is_year_month (data p)"
  shows "distinct (map fst (planosPorMes (dashboard_metrics parse_date now (Some planos))))
     \<and> (\<forall>(k, v)\<in>set (planosPorMes (dashboard_metrics parse_date now (Some planos))).
          length k = 7 \<and> (\<exists>p\<in>set planos. k = take 7 (data p))
          \<and> v = Num (length (filter (\<lambda>p. take 7 (data p) = k) planos)))
     \<and> (\<forall>p\<in>set planos.
          take 7 (data p) \<in> fst ` set (planosPorMes (dashboard_metrics parse_date now (Some planos))))"
proof -
  let ?ks = "map (\<lambda>p. take 7 (data p)) planos"
  let ?E = "planosPorMes (dashboard_metrics parse_date now (Some planos))"
  have E: "?E = foldl bump [] ?ks" by (rule metrics_planosPorMes)
  have "\<forall>k\<in>set ?ks. k \<notin> set Object_prototype_names" using assms year_month_key by auto
  then have c: "counted ?ks ?E" unfolding E by (rule counted_foldl)
  then have d: "distinct (map fst ?E)" and s0: "set (map fst ?E) = set ?ks"
    and m: "\<forall>k\<in>set ?ks. map_of ?E k = Some (Num (count_list ?ks k))"
    unfolding counted_def by blast+
  have s: "fst ` set ?E = set ?ks" using s0 by simp
  have "\<forall>(k, v)\<in>set ?E. length k = 7 \<and> (\<exists>p\<in>set planos. k = take 7 (data p))
          \<and> v = Num (length (filter (\<lambda>p. take 7 (data p) = k) planos))"
  proof (clarify)
    fix k v assume kv: "(k, v) \<in> set ?E"
    then have k: "k \<in> set ?ks" using s by force
    then obtain p where p: "p \<in> set planos" "k = take 7 (data p)" by auto
    then have l: "length k = 7" using assms year_month_key by blast
    have "map_of ?E k = Some v" using d kv by simp
    moreover have "map_of ?E k = Some (Num (count_list ?ks k))" using m k by blast
    ultimately have "v = Num (count_list ?ks k)" by simp
    then have "v = Num (length (filter (\<lambda>p. take 7 (data p) = k) planos))"
      by (simp add: count_list_map)
    then show "length k = 7 \<and> (\<exists>p\<in>set planos. k = take 7 (data p))
          \<and> v = Num (length (filter (\<lambda>p. take 7 (data p) = k) planos))"
      using l p by blast
  qed
  moreover have "\<forall>p\<in>set planos. take 7 (data p) \<in> fst ` set ?E" using s by simp
  ultimately show ?thesis using d by blast
qed

text \<open>Three records, two of them of March 2024.\<close>

theorem dashboard_planosPorMes_witness:
  "is_year_month ''2024-03-01'' \<and> is_year_month ''2024-02-10'' \<and> is_year_month ''2024-03-15''
   \<and> planosPorMes (dashboard_metrics (\<lambda>s. None) 0 (Some
      [\<lparr>data = ''2024-03-01'', paciente = ''Ana'', objetivo = ''ganho''\<rparr>,
       \<lparr>data = ''2024-02-10'', paciente = ''Bia'', objetivo = ''perda''\<rparr>,
       \<lparr>data = ''2024-03-15'', paciente = ''Ana'', objetivo = ''perda''\<rparr>])) =
      [(''2024-03'', Num 2), (''2024-02'', Num 1)]
   \<and> distinct (map fst (planosPorMes (dashboard_metrics (\<lambda>s. None) 0 (Some
      [\<lparr>data = ''2024-03-01'', paciente = ''Ana'', objetivo = ''ganho''\<rparr>,
       \<lparr>data = ''2024-02-10'', paciente = ''Bia'', objetivo = ''perda''\<rparr>,
       \<lparr>data = ''2024-03-15'', paciente = ''Ana'', objetivo = ''perda''\<rparr>]))))"
proof -
  let ?l = "[\<lparr>data = ''2024-03-01'', paciente = ''Ana'', objetivo = ''ganho''\<rparr>,
       \<lparr>data = ''2024-02-10'', paciente = ''Bia'', objetivo = ''perda''\<rparr>,
       \<lparr>data = ''2024-03-15'', paciente = ''Ana'', objetivo = ''perda''\<rparr>]"
  have h: "is_year_month ''2024-03-01''" "is_year_month ''2024-02-10''" "is_year_month ''2024-03-15''"
    by (simp_all add: is_digit_def)
  then have "\<forall>p\<in>set ?l. is_year_month (data p)" by simp
  from dashboard_planosPorMes [OF this, of "\<lambda>s. None" 0]
  have d: "distinct (map fst (planosPorMes (dashboard_metrics (\<lambda>s. None) 0 (Some ?l))))" by blast
  have v: "planosPorMes (dashboard_metrics (\<lambda>s. None) 0 (Some ?l)) =
      [(''2024-03'', Num 2), (''2024-02'', Num 1)]"
    by code_simp
  show ?thesis using h d v by blast
qed


text \<open>
  Claim C5, as amended. For every list of plan records whose goals are no property names
  of \<^verbatim>\<open>Object.prototype\<close>, the top goals are at most 3; they are the first three
  entries of the per-goal mapping sorted by descending count, the sort leaving entries of
  equal count in the order of the mapping; the mapping has each goal once with the number
  of its records; and the mapping lists the goals that are array indices first, in
  ascending numeric order, and then the other goals in the order of their first
  occurrences. So ties are broken by the order of first occurrence among goals that are
  no array indices, and an array index comes before them.
\<close>

theorem dashboard_topObjetivos:
  assumes "\<forall>p\<in>set planos. objetivo p \<notin> set Object_prototype_names"
  shows "length (topObjetivos (dashboard_metrics parse_date now (Some planos))) \<le> 3
     \<and> topObjetivos (dashboard_metrics parse_date now (Some planos)) =
         take 3 (sort_key (\<lambda>e. - count_of e)
           (planosPorObjetivo (dashboard_metrics parse_date now (Some planos))))
     \<and> planosPorObjetivo (dashboard_metrics parse_date now (Some planos)) =
         map (\<lambda>g. (g, Num (length (filter (\<lambda>p. objetivo p = g) planos))))
           (map fst (planosPorObjetivo (dashboard_metrics parse_date now (Some planos))))
     \<and> distinct (map fst (planosPorObjetivo (dashboard_metrics parse_date now (Some planos))))
     \<and> set (map fst (planosPorObjetivo (dashboard_metrics parse_date now (Some planos)))) =
         set (map objetivo planos)
     \<and> map fst (planosPorObjetivo (dashboard_metrics parse_date now (Some planos))) =
         filter is_array_index
           (map fst (planosPorObjetivo (dashboard_metrics parse_date now (Some planos))))
         @ filter (\<lambda>g. \<not> is_array_index g) (first_occ (map objetivo planos))
     \<and> sorted (map decimal_value (filter is_array_index
           (map fst (planosPorObjetivo (dashboard_metrics parse_date now (Some planos))))))"
proof -
  let ?ks = "map objetivo planos"
  let ?E = "planosPorObjetivo (dashboard_metrics parse_date now (Some planos))"
  let ?T = "topObjetivos (dashboard_metrics parse_date now (Some planos))"
  have E: "?E = foldl bump [] ?ks" by (rule metrics_planosPorObjetivo)
  have T: "?T = take 3 (js_sort by_count_desc ?E)" by (rule metrics_topObjetivos)
  have np: "\<forall>k\<in>set ?ks. k \<notin> set Object_prototype_names" using assms by simp
  then have c: "counted ?ks ?E" unfolding E by (rule counted_foldl)
  from np have o: "key_ordered ?ks (map fst ?E)" unfolding E by (rule key_ordered_foldl)
  have d: "distinct (map fst ?E)" and s: "set (map fst ?E) = set ?ks"
    using c unfolding counted_def by blast+
  have en: "?E = map (\<lambda>g. (g, Num (count_list ?ks g))) (map fst ?E)"
    using c by (rule counted_entries)
  then have en': "?E = map (\<lambda>g. (g, Num (length (filter (\<lambda>p. objetivo p = g) planos)))) (map fst ?E)"
    by (simp only: count_list_map)
  have "\<forall>e\<in>set ?E. \<exists>n. snd e = Num n" by (subst en) auto
  then have "js_sort by_count_desc ?E = sort_key (\<lambda>e. - count_of e) ?E"
    by (rule js_sort_sort_key)
  then have t: "?T = take 3 (sort_key (\<lambda>e. - count_of e) ?E)" using T by simp
  have l: "length ?T \<le> 3" unfolding T by simp
  note k = key_ordered_filter [OF o]
  show ?thesis using l t en' d s k by blast
qed

text \<open>
  Five records with the goals \<^verbatim>\<open>b, 10, b, 9, a\<close>: the mapping lists
  \<^verbatim>\<open>9, 10, b, a\<close>, and the top goals are \<^verbatim>\<open>b\<close> (2), then
  \<^verbatim>\<open>9\<close> and \<^verbatim>\<open>10\<close> (1 each).
\<close>

theorem dashboard_topObjetivos_witness:
  "''b'' \<notin> set Object_prototype_names \<and> ''10'' \<notin> set Object_prototype_names
   \<and> ''9'' \<notin> set Object_prototype_names \<and> ''a'' \<notin> set Object_prototype_names
   \<and> topObjetivos (dashboard_metrics (\<lambda>s. None) 0 (Some
      [\<lparr>data = ''2024-03-01'', paciente = ''Ana'', objetivo = ''b''\<rparr>,
       \<lparr>data = ''2024-03-02'', paciente = ''Bia'', objetivo = ''10''\<rparr>,
       \<lparr>data = ''2024-03-03'', paciente = ''Caio'', objetivo = ''b''\<rparr>,
       \<lparr>data = ''2024-03-04'', paciente = ''Davi'', objetivo = ''9''\<rparr>,
       \<lparr>data = ''2024-03-05'', paciente = ''Eva'', objetivo = ''a''\<rparr>])) =
      [(''b'', Num 2), (''9'', Num 1), (''10'', Num 1)]
   \<and> planosPorObjetivo (dashboard_metrics (\<lambda>s. None) 0 (Some
      [\<lparr>data = ''2024-03-01'', paciente = ''Ana'', objetivo = ''b''\<rparr>,
       \<lparr>data = ''2024-03-02'', paciente = ''Bia'', objetivo = ''10''\<rparr>,
       \<lparr>data = ''2024-03-03'', paciente = ''Caio'', objetivo = ''b''\<rparr>,
       \<lparr>data = ''2024-03-04'', paciente = ''Davi'', objetivo = ''9''\<rparr>,
       \<lparr>data = ''2024-03-05'', paciente = ''Eva'', objetivo = ''a''\<rparr>])) =
      [(''9'', Num 1), (''10'', Num 1), (''b'', Num 2), (''a'', Num 1)]
   \<and> length (topObjetivos (dashboard_metrics (\<lambda>s. None) 0 (Some
      [\<lparr>data = ''2024-03-01'', paciente = ''Ana'', objetivo = ''b''\<rparr>,
       \<lparr>data = ''2024-03-02'', paciente = ''Bia'', objetivo = ''10''\<rparr>,
       \<lparr>data = ''2024-03-03'', paciente = ''Caio'', objetivo = ''b''\<rparr>,
       \<lparr>data = ''2024-03-04'', paciente = ''Davi'', objetivo = ''9''\<rparr>,
       \<lparr>data = ''2024-03-05'', paciente = ''Eva'', objetivo = ''a''\<rparr>]))) \<le> 3"
proof -
  let ?l = "[\<lparr>data = ''2024-03-01'', paciente = ''Ana'', objetivo = ''b''\<rparr>,
       \<lparr>data = ''2024-03-02'', paciente = ''Bia'', objetivo = ''10''\<rparr>,
       \<lparr>data = ''2024-03-03'', paciente = ''Caio'', objetivo = ''b''\<rparr>,
       \<lparr>data = ''2024-03-04'', paciente = ''Davi'', objetivo = ''9''\<rparr>,
       \<lparr>data = ''2024-03-05'', paciente = ''Eva'', objetivo = ''a''\<rparr>]"
  have h: "''b'' \<notin> set Object_prototype_names" "''10'' \<notin> set Object_prototype_names"
    "''9'' \<notin> set Object_prototype_names" "''a'' \<notin> set Object_prototype_names"
    by (simp_all add: Object_prototype_names_def)
  then have "\<forall>p\<in>set ?l. objetivo p \<notin> set Object_prototype_names" by simp
  from dashboard_topObjetivos [OF this, of "\<lambda>s. None" 0]
  have l: "length (topObjetivos (dashboard_metrics (\<lambda>s. None) 0 (Some ?l))) \<le> 3" by blast
  have t: "topObjetivos (dashboard_metrics (\<lambda>s. None) 0 (Some ?l)) =
      [(''b'', Num 2), (''9'', Num 1), (''10'', Num 1)]"
    by code_simp
  have e: "planosPorObjetivo (dashboard_metrics (\<lambda>s. None) 0 (Some ?l)) =
      [(''9'', Num 1), (''10'', Num 1), (''b'', Num 2), (''a'', Num 1)]"
    by code_simp
  show ?thesis using h l t e by blast
qed

text \<open>
  Claim C5, as stated, fails: with the goals \<^verbatim>\<open>b\<close> and then \<^verbatim>\<open>1\<close>, one
  record each, the order of first occurrence puts \<^verbatim>\<open>b\<close> first, and the dashboard
  answers \<^verbatim>\<open>1\<close> first, because the object lists the array index \<^verbatim>\<open>1\<close> before
  \<^verbatim>\<open>b\<close>.
\<close>

theorem dashboard_topObjetivos_counterexample:
  "topObjetivos (dashboard_metrics (\<lambda>s. None) 0 (Some
      [\<lparr>data = ''2024-03-01'', paciente = ''Ana'', objetivo = ''b''\<rparr>,
       \<lparr>data = ''2024-03-02'', paciente = ''Bia'', objetivo = ''1''\<rparr>])) =
      [(''1'', Num 1), (''b'', Num 1)]
   \<and> topObjetivos_by_first_occurrence
      [\<lparr>data = ''2024-03-01'', paciente = ''Ana'', objetivo = ''b''\<rparr>,
       \<lparr>data = ''2024-03-02'', paciente = ''Bia'', objetivo = ''1''\<rparr>] =
      [(''b'', Num 1), (''1'', Num 1)]
   \<and> topObjetivos (dashboard_metrics (\<lambda>s. None) 0 (Some
      [\<lparr>data = ''2024-03-01'', paciente = ''Ana'', objetivo = ''b''\<rparr>,
       \<lparr>data = ''2024-03-02'', paciente = ''Bia'', objetivo = ''1''\<rparr>])) \<noteq>
     topObjetivos_by_first_occurrence
      [\<lparr>data = ''2024-03-01'', paciente = ''Ana'', objetivo = ''b''\<rparr>,
       \<lparr>data = ''2024-03-02'', paciente = ''Bia'', objetivo = ''1''\<rparr>]"
proof -
  let ?l = "[\<lparr>data = ''2024-03-01'', paciente = ''Ana'', objetivo = ''b''\<rparr>,
       \<lparr>data = ''2024-03-02'', paciente = ''Bia'', objetivo = ''1''\<rparr>]"
  have a: "topObjetivos (dashboard_metrics (\<lambda>s. None) 0 (Some ?l)) = [(''1'', Num 1), (''b'', Num 1)]"
    by code_simp
  have b: "topObjetivos_by_first_occurrence ?l = [(''b'', Num 1), (''1'', Num 1)]"
    by code_simp
  have "[(''1'', Num 1), (''b'', Num 1)] \<noteq> [(''b'', Num 1), (''1'', Num (1::nat))]" by simp
  then show ?thesis using a b by simp
qed

section \<open>Properties of login and registration\<close>




text \<open>
  Claim C8. When the required fields are there and the creation of the identity answers
  an error, the route answers 400 with the message of the identity provider, and the
  table of profiles is left as it was (the identity provider is in the state its call
  left). The answer is the same for every function \<open>insert_user\<close> and every \<open>hash\<close>:
  neither is reached.
\<close>

theorem register_identity_error:
  assumes "\<not> missing (rq_name req)" and "\<not> missing (rq_email req)"
    and "\<not> missing (rq_password req)" and "\<not> missing (rq_cpf_cnpj req)"
    and "\<not> missing (rq_profession req)"
    and "createUser (fst st) (the (rq_email req)) (the (rq_password req)) = (a', Returns authData)"
    and "reply_error authData = Some m"
  shows "register createUser hash insert_user req st =
           ((a', snd st), Response 400 (Register_error (Upstream m)))"
  using assms by (simp add: register_def)

text \<open>
  An identity provider that refuses an email it has, and a table that would keep the row:
  registering an email that is there answers 400 with the message and adds no profile.
\<close>

theorem register_identity_error_witness:
  "register
     (\<lambda>a e p. if e \<in> set (map auth_email a)
        then (a, Returns \<lparr>reply_data = None, reply_error = Some ''User already registered''\<rparr>)
        else (a @ [\<lparr>auth_id = ''uuid-new'', auth_email = e\<rparr>],
              Returns \<lparr>reply_data = Some \<lparr>auth_id = ''uuid-new'', auth_email = e\<rparr>, reply_error = None\<rparr>))
     (\<lambda>p cost. Returns (''$2b$'' @ p))
     (\<lambda>u n. (u @ [n], Returns \<lparr>reply_data = Some [n], reply_error = None\<rparr>))
     \<lparr>rq_name = Some ''Ana'', rq_email = Some ''ana@x.com'', rq_password = Some ''segredo'',
      rq_cpf_cnpj = Some ''123'', rq_profession = Some ''nutricionista'', rq_crn = None\<rparr>
     ([\<lparr>auth_id = ''uuid-1'', auth_email = ''ana@x.com''\<rparr>], []) =
   (([\<lparr>auth_id = ''uuid-1'', auth_email = ''ana@x.com''\<rparr>], []),
    Response 400 (Register_error (Upstream ''User already registered'')))"
proof -
  let ?au = "\<lparr>auth_id = ''uuid-1'', auth_email = ''ana@x.com''\<rparr>"
  let ?create = "\<lambda>a e p. if e \<in> set (map auth_email a)
        then (a, Returns \<lparr>reply_data = None, reply_error = Some ''User already registered''\<rparr>)
        else (a @ [\<lparr>auth_id = ''uuid-new'', auth_email = e\<rparr>],
              Returns \<lparr>reply_data = Some \<lparr>auth_id = ''uuid-new'', auth_email = e\<rparr>, reply_error = None\<rparr>)"
  let ?hash = "\<lambda>p (cost::nat). Returns (''$2b$'' @ p)"
  let ?insert = "\<lambda>(u::new_user list) n. (u @ [n], Returns \<lparr>reply_data = Some [n], reply_error = None\<rparr>)"
  let ?req = "\<lparr>rq_name = Some ''Ana'', rq_email = Some ''ana@x.com'', rq_password = Some ''segredo'',
      rq_cpf_cnpj = Some ''123'', rq_profession = Some ''nutricionista'', rq_crn = None\<rparr>"
  have "register ?create ?hash ?insert ?req ([?au], []) =
      (([?au], snd ([?au], [])), Response 400 (Register_error (Upstream ''User already registered'')))"
    by (rule register_identity_error [where
          authData = "\<lparr>reply_data = None, reply_error = Some ''User already registered''\<rparr>"])
       (simp_all add: missing_def)
  then show ?thesis by simp
qed

section \<open>Properties of the recent plans\<close>

lemma char_le_int: "a \<le> c \<longleftrightarrow> (of_char a :: int) \<le> of_char c"
proof -
  have "(of_char x :: int) = int (of_char x)" for x by (rule of_nat_of_char [symmetric])
  then show ?thesis by (simp add: less_eq_char_def)
qed

lemma radix_digit_10_None: "\<not> is_digit c \<Longrightarrow> radix_digit 10 c = None"
  by (auto simp: radix_digit_def Let_def char_le_int)

lemma parseInt_non_numeric:
  assumes "\<not> is_js_space c" and "c \<noteq> CHR ''-''" and "c \<noteq> CHR ''+''" and "\<not> is_digit c"
  shows "parseInt (c # cs) = None"
proof -
  have z: "c \<noteq> CHR ''0''" using assms(4) by (auto simp: is_digit_def)
  have "radix_digit 10 c = None" using assms(4) by (rule radix_digit_10_None)
  then show ?thesis using assms z by (simp add: parseInt_def Let_def)
qed

text \<open>
  Claim C10. A limit that parses to \<^verbatim>\<open>NaN\<close> or to 0 gives the default 5, and such
  an offset gives 0; in particular a value whose first character is no white space, sign
  or digit parses to \<^verbatim>\<open>NaN\<close>, and \<^verbatim>\<open>0\<close>, \<^verbatim>\<open>abc\<close> and an absent
  parameter give limit 5 and offset 0. So a request with \<^verbatim>\<open>limit=0\<close> is answered as
  one with \<^verbatim>\<open>limit=5\<close> or with no limit, and over a store that answers the rows of
  the range asked for, it returns the first 5 rows (all of them when there are fewer).
\<close>

theorem planos_recentes_defaults:
  "(parseInt_query q = None \<or> parseInt_query q = Some 0 \<longrightarrow> limit_of q = 5 \<and> offset_of q = 0)
   \<and> (\<not> is_js_space c \<and> c \<noteq> CHR ''-'' \<and> c \<noteq> CHR ''+'' \<and> \<not> is_digit c \<longrightarrow>
        limit_of (Some (c # cs)) = 5 \<and> offset_of (Some (c # cs)) = 0)
   \<and> limit_of (Some ''0'') = 5 \<and> limit_of (Some ''abc'') = 5 \<and> limit_of None = 5
   \<and> offset_of (Some ''0'') = 0 \<and> offset_of (Some ''abc'') = 0 \<and> offset_of None = 0
   \<and> planos_recentes verify secret select_range select_count authHeader (Some ''0'') offset_q =
       planos_recentes verify secret select_range select_count authHeader (Some ''5'') offset_q
   \<and> planos_recentes verify secret select_range select_count authHeader (Some ''0'') offset_q =
       planos_recentes verify secret select_range select_count authHeader None offset_q
   \<and> (authenticateJWT verify secret authHeader = Next user
        \<and> select_count (jwt_id user) = Returns totalCount \<longrightarrow>
      planos_recentes verify secret
        (\<lambda>user_id from to. Returns \<lparr>reply_data = Some (range_rows rows from to), reply_error = None\<rparr>)
        select_count authHeader (Some ''0'') (Some ''0'') =
      Response 200 (Recentes (Some (take 5 rows)) totalCount))"
proof -
  have a: "parseInt_query q = None \<or> parseInt_query q = Some 0 \<longrightarrow> limit_of q = 5 \<and> offset_of q = 0"
    by (auto simp: limit_of_def offset_of_def or_default_def)
  have b: "\<not> is_js_space c \<and> c \<noteq> CHR ''-'' \<and> c \<noteq> CHR ''+'' \<and> \<not> is_digit c \<longrightarrow>
        limit_of (Some (c # cs)) = 5 \<and> offset_of (Some (c # cs)) = 0"
    by (simp add: limit_of_def offset_of_def or_default_def parseInt_query_def parseInt_non_numeric)
  have p0: "parseInt ''0'' = Some 0" by code_simp
  have p5: "parseInt ''5'' = Some 5" by code_simp
  have pa: "parseInt ''abc'' = None" by code_simp
  have pu: "parseInt ''undefined'' = None" by code_simp
  have l: "limit_of (Some ''0'') = 5" "limit_of (Some ''abc'') = 5" "limit_of None = 5"
    "limit_of (Some ''5'') = 5"
    "offset_of (Some ''0'') = 0" "offset_of (Some ''abc'') = 0" "offset_of None = 0"
    by (simp_all add: limit_of_def offset_of_def or_default_def parseInt_query_def p0 p5 pa pu)
  have e: "planos_recentes verify secret select_range select_count authHeader (Some ''0'') offset_q =
       planos_recentes verify secret select_range select_count authHeader (Some ''5'') offset_q"
    "planos_recentes verify secret select_range select_count authHeader (Some ''0'') offset_q =
       planos_recentes verify secret select_range select_count authHeader None offset_q"
    by (simp_all only: planos_recentes_def l)
  have f: "authenticateJWT verify secret authHeader = Next user
        \<and> select_count (jwt_id user) = Returns totalCount \<longrightarrow>
      planos_recentes verify secret
        (\<lambda>user_id from to. Returns \<lparr>reply_data = Some (range_rows rows from to), reply_error = None\<rparr>)
        select_count authHeader (Some ''0'') (Some ''0'') =
      Response 200 (Recentes (Some (take 5 rows)) totalCount)"
    by (simp add: planos_recentes_def l range_rows_def)
  show ?thesis using a b l e f by blast
qed

text \<open>Seven rows, \<^verbatim>\<open>limit=0\<close> and \<^verbatim>\<open>offset=0\<close>: five rows come back.\<close>

theorem planos_recentes_defaults_witness:
  "parseInt_query (Some ''0'') = Some 0 \<and> parseInt_query (Some ''abc'') = None
   \<and> limit_of (Some ''0'') = 5 \<and> limit_of (Some ''abc'') = 5
   \<and> planos_recentes
     (\<lambda>t k. if t = ''abc'' then Some \<lparr>jwt_id = ''u1'', jwt_email = ''ana@x.com'', jwt_name = ''Ana''\<rparr> else None)
     (JWT_SECRET None)
     (\<lambda>user_id from to. Returns \<lparr>reply_data = Some (range_rows [1, 2, 3, 4, 5, 6, 7 :: nat] from to),
                                  reply_error = None\<rparr>)
     (\<lambda>user_id. Returns (Some 7)) (Some ''Bearer abc'') (Some ''0'') (Some ''0'') =
   Response 200 (Recentes (Some [1, 2, 3, 4, 5]) (Some 7))"
proof -
  let ?verify = "\<lambda>t (k::string). if t = ''abc'' then Some \<lparr>jwt_id = ''u1'', jwt_email = ''ana@x.com'', jwt_name = ''Ana''\<rparr> else None"
  let ?count = "\<lambda>user_id::string. Returns (Some (7::nat))"
  note t = planos_recentes_defaults [where q = "Some ''0''" and verify = ?verify
      and secret = "JWT_SECRET None" and authHeader = "Some ''Bearer abc''" and select_count = ?count
      and user = "\<lparr>jwt_id = ''u1'', jwt_email = ''ana@x.com'', jwt_name = ''Ana''\<rparr>"
      and totalCount = "Some 7" and rows = "[1, 2, 3, 4, 5, 6, 7 :: nat]"]
  have p0: "parseInt_query (Some ''0'') = Some 0" by code_simp
  have pa: "parseInt_query (Some ''abc'') = None" by code_simp
  have au: "authenticateJWT ?verify (JWT_SECRET None) (Some ''Bearer abc'') =
      Next \<lparr>jwt_id = ''u1'', jwt_email = ''ana@x.com'', jwt_name = ''Ana''\<rparr>"
    by (simp add: authenticateJWT_def at_def)
  have l: "limit_of (Some ''0'') = 5 \<and> offset_of (Some ''0'') = 0"
    by (rule t [THEN conjunct1, rule_format]) (simp add: p0)
  have la: "limit_of (Some ''abc'') = 5" using t by blast
  have r: "planos_recentes ?verify (JWT_SECRET None)
     (\<lambda>user_id from to. Returns \<lparr>reply_data = Some (range_rows [1, 2, 3, 4, 5, 6, 7 :: nat] from to),
                                  reply_error = None\<rparr>)
     ?count (Some ''Bearer abc'') (Some ''0'') (Some ''0'') =
   Response 200 (Recentes (Some (take 5 [1, 2, 3, 4, 5, 6, 7])) (Some 7))"
    using t au by blast
  have "take 5 [1, 2, 3, 4, 5, 6, 7 :: nat] = [1, 2, 3, 4, 5]" by simp
  with r p0 pa l la show ?thesis by simp
qed

end
